theory Spec2Isabelle
  imports Complex_Main "HOL-Library.Word"
begin

section \<open>JavaScript values used by the client (src/app.js)\<close>

text \<open>
  A JavaScript string is a sequence of 16-bit code units. String literals of the source
  are written \<open>js ''...''\<close>.
\<close>

type_synonym jsstring = "16 word list"

definition js :: "string \<Rightarrow> jsstring" where
  "js s = map of_char s"

text \<open>
  The values that the client's fields hold: \<open>undefined\<close>, \<open>null\<close> or a string.
  An identifier (chat id, user id) that the server sends as a number is taken in its
  decimal string form, which is what a template literal makes of it and on which
  \<open>===\<close> agrees with the numbers. HOL equality on \<open>jsval\<close> is \<open>===\<close>.
\<close>

datatype jsval = Undefined | Null | Str jsstring

text \<open>Truthiness, as tested by \<open>if (x)\<close>, \<open>!x\<close> and \<open>x || y\<close>.\<close>

fun truthy :: "jsval \<Rightarrow> bool" where
  "truthy Undefined = False"
| "truthy Null = False"
| "truthy (Str s) = (s \<noteq> [])"

text \<open>ToString, as applied by a template literal \<open>`${x}`\<close>.\<close>

fun to_string :: "jsval \<Rightarrow> jsstring" where
  "to_string Undefined = js ''undefined''"
| "to_string Null = js ''null''"
| "to_string (Str s) = s"

text \<open>
  \<open>String.prototype.trim\<close> removes leading and trailing WhiteSpace and LineTerminator
  code points (ECMAScript): TAB, LF, VT, FF, CR, SP, NBSP, U+1680, U+2000..U+200A,
  U+2028, U+2029, U+202F, U+205F, U+3000 and U+FEFF.
\<close>

definition is_whitespace :: "16 word \<Rightarrow> bool" where
  "is_whitespace c \<longleftrightarrow>
     c \<in> {0x0009, 0x000A, 0x000B, 0x000C, 0x000D, 0x0020, 0x00A0, 0x1680,
          0x2028, 0x2029, 0x202F, 0x205F, 0x3000, 0xFEFF}
     \<or> (0x2000 \<le> c \<and> c \<le> 0x200A)"

definition trim :: "jsstring \<Rightarrow> jsstring" where
  "trim s = rev (dropWhile is_whitespace (rev (dropWhile is_whitespace s)))"

text \<open>
  \<open>encodeURIComponent\<close> throws a URIError on a string that is not well-formed UTF-16
  (a surrogate code unit without its partner).
\<close>

fun well_formed :: "jsstring \<Rightarrow> bool" where
  "well_formed [] = True"
| "well_formed [c] = (\<not> (0xD800 \<le> c \<and> c \<le> 0xDFFF))"
| "well_formed (c # d # cs) =
     (if 0xD800 \<le> c \<and> c \<le> 0xDBFF then 0xDC00 \<le> d \<and> d \<le> 0xDFFF \<and> well_formed cs
      else if 0xDC00 \<le> c \<and> c \<le> 0xDFFF then False
      else well_formed (d # cs))"

section \<open>escapeHtml\<close>

text \<open>
  \<^verbatim>\<open>
  function escapeHtml(text) {
      if (!text) return '';
      const div = document.createElement('div');
      div.textContent = text;
      return div.innerHTML;
  }
  \<close>
  Reading \<open>innerHTML\<close> of an element whose only child is a text node serialises that
  text by the HTML fragment serialisation algorithm: \<open>&\<close> becomes \<open>&amp;\<close>, U+00A0
  becomes \<open>&nbsp;\<close>, \<open><\<close> becomes \<open>&lt;\<close>, \<open>>\<close> becomes \<open>&gt;\<close>, and every other code
  unit is kept.
\<close>

definition escape_unit :: "16 word \<Rightarrow> jsstring" where
  "escape_unit c =
     (if c = 0x26 then js ''&amp;''
      else if c = 0xA0 then js ''&nbsp;''
      else if c = 0x3C then js ''&lt;''
      else if c = 0x3E then js ''&gt;''
      else [c])"

definition innerHTML_of_text :: "jsstring \<Rightarrow> jsstring" where
  "innerHTML_of_text s = concat (map escape_unit s)"

fun escapeHtml :: "jsval \<Rightarrow> jsstring" where
  "escapeHtml Undefined = []"
| "escapeHtml Null = []"
| "escapeHtml (Str s) = (if s = [] then [] else innerHTML_of_text s)"

section \<open>apiCall\<close>

text \<open>
  A parsed JSON response body. A number carries the value of the parsed double; an
  object carries its own properties, each key once.
\<close>

datatype json = JNull | JBool bool | JNum rat | JStr jsstring | JArr "json list"
  | JObj "(jsstring \<times> json) list"

fun json_truthy :: "json \<Rightarrow> bool" where
  "json_truthy JNull = False"
| "json_truthy (JBool b) = b"
| "json_truthy (JNum n) = (n \<noteq> 0)"
| "json_truthy (JStr s) = (s \<noteq> [])"
| "json_truthy (JArr xs) = True"
| "json_truthy (JObj kvs) = True"

text \<open>
  Property read \<open>data.k\<close> on a value that is not \<open>null\<close>: \<open>None\<close> is \<open>undefined\<close>
  (a primitive or an array has no property \<open>detail\<close> or \<open>message\<close>).
\<close>

fun get_prop :: "json \<Rightarrow> jsstring \<Rightarrow> json option" where
  "get_prop (JObj kvs) k = map_of kvs k"
| "get_prop data k = None"

text \<open>\<open>a || b\<close> where \<open>a\<close> is a property read.\<close>

definition or_else :: "json option \<Rightarrow> json \<Rightarrow> json" where
  "or_else a b = (case a of None \<Rightarrow> b | Some v \<Rightarrow> if json_truthy v then v else b)"

text \<open>
  What a function of the client can throw. \<open>Error v\<close> is \<open>new Error(v)\<close>, whose
  message is the string form of \<open>v\<close> (for \<open>JStr m\<close>, the string \<open>m\<close> itself).
  \<open>FetchRejected\<close> is the rejection of \<open>fetch\<close> (no response), \<open>SyntaxError\<close> the
  rejection of \<open>res.json()\<close> on a body that is not JSON.
\<close>

datatype exn = TypeError | URIError | SyntaxError | FetchRejected | Error json

text \<open>\<open>options.body\<close>: the body as given (form data), or \<open>JSON.stringify(body)\<close>.\<close>

datatype 'b opt_body = Raw 'b | Stringified 'b

record 'b request =
  url :: jsstring
  http_method :: jsstring
  headers :: "(jsstring \<times> jsstring) list"
  req_body :: "'b opt_body option"

text \<open>What \<open>fetch\<close> settles to: a rejection, or a response with its \<open>ok\<close> flag and the
  result of \<open>res.json()\<close> (\<open>None\<close> when the body does not parse).\<close>

datatype fetch_result = Rejected | Response bool "json option"

definition API_URL :: jsstring where
  "API_URL = js ''http://127.0.0.1:8000''"

definition WS_URL :: jsstring where
  "WS_URL = js ''ws://127.0.0.1:8000/ws''"

text \<open>
  \<^verbatim>\<open>
  async function apiCall(endpoint, method = 'GET', body = null, isFormData = false) {
      const headers = {};
      if (state.token) {
          headers['Authorization'] = `Bearer ${state.token}`;
      }
      const options = { method, headers };
      if (body) {
          if (isFormData) {
              options.body = body;
          } else {
              headers['Content-Type'] = 'application/json';
              options.body = JSON.stringify(body);
          }
      }
      const res = await fetch(`${API_URL}${endpoint}`, options);
      const data = await res.json();
      if (!res.ok) {
          throw new Error(data.detail || data.message || 'API Error');
      }
      return data;
  }
  \<close>
  The first argument is \<open>state.token\<close>. A body is \<open>null\<close> (\<open>None\<close>) or an object,
  which is truthy. \<open>apiCall_request\<close> is the part up to the call of \<open>fetch\<close>.
\<close>

definition apiCall_request ::
  "jsval \<Rightarrow> jsstring \<Rightarrow> jsstring \<Rightarrow> 'b option \<Rightarrow> bool \<Rightarrow> 'b request" where
  "apiCall_request tok endpoint method body isFormData =
     (let hs = (if truthy tok then [(js ''Authorization'', js ''Bearer '' @ to_string tok)]
                else [])
      in case body of
           None \<Rightarrow>
             \<lparr>url = API_URL @ endpoint, http_method = method, headers = hs, req_body = None\<rparr>
         | Some b \<Rightarrow>
             if isFormData then
               \<lparr>url = API_URL @ endpoint, http_method = method, headers = hs,
                req_body = Some (Raw b)\<rparr>
             else
               \<lparr>url = API_URL @ endpoint, http_method = method,
                headers = hs @ [(js ''Content-Type'', js ''application/json'')],
                req_body = Some (Stringified b)\<rparr>)"

definition apiCall ::
  "jsval \<Rightarrow> ('b request \<Rightarrow> fetch_result) \<Rightarrow> jsstring \<Rightarrow> jsstring \<Rightarrow> 'b option \<Rightarrow> bool
     \<Rightarrow> exn + json" where
  "apiCall tok fetch endpoint method body isFormData =
     (case fetch (apiCall_request tok endpoint method body isFormData) of
        Rejected \<Rightarrow> Inl FetchRejected
      | Response ok parsed \<Rightarrow>
          (case parsed of
             None \<Rightarrow> Inl SyntaxError
           | Some data \<Rightarrow>
               if \<not> ok then
                 (if data = JNull then Inl TypeError
                  else Inl (Error (or_else (get_prop data (js ''detail''))
                                    (or_else (get_prop data (js ''message''))
                                       (JStr (js ''API Error''))))))
               else Inr data))"

section \<open>The client's state\<close>

text \<open>
  \<^verbatim>\<open>
  const state = {
      token: localStorage.getItem('token'),
      user: JSON.parse(localStorage.getItem('user') || 'null'),
      privateChats: [], groupChats: [], users: [],
      activeChat: null, // { id, type }
      socket: null,
      isAdmin: false
  };
  \<close>
  Beside the fields of \<open>state\<close> the model holds what the modelled functions read or
  write outside it: the WebSocket objects that were created (\<open>state.socket\<close> refers to
  one by its index), the pending timers, and the parts of the page that are written
  with message data (\<open>#private-chat-list\<close>, \<open>#active-chat-title\<close>, \<open>#messages-area\<close>,
  \<open>#message-input\<close>, \<open>#toast-container\<close>). The calls by which these functions reach
  outside the client (\<open>new WebSocket\<close>, \<open>close\<close>, \<open>send\<close>, \<open>fetch\<close>, \<open>setTimeout\<close>) are
  logged in \<open>trace\<close> in the order in which they are made. Views, the status indicator, the user
  badge and \<open>localStorage\<close> after start-up are written and never read by the modelled
  functions; they are left out. The elements that the code looks up by id or selector
  are taken to exist.
\<close>

record user_obj =
  user_id :: jsval
  nick_name :: jsval

record chat_ref =
  ac_id :: jsval
  ac_type :: jsval

record private_chat =
  pc_id :: jsval
  other_participant :: jsval

record message =
  content :: jsval
  timestamp :: jsval
  sender_id :: jsval
  sender_name :: jsval

datatype ready_state = CONNECTING | OPEN | CLOSING | CLOSED

text \<open>A WebSocket object: the token of its URL
  (\<open>`${WS_URL}?token=${encodeURIComponent(state.token)}`\<close>), its \<open>readyState\<close>, and
  whether its \<open>onclose\<close> still is the reconnecting handler (\<open>False\<close> once set to
  \<open>null\<close>).\<close>

record websocket =
  ws_token :: jsstring
  readyState :: ready_state
  has_onclose :: bool

text \<open>A frame sent on the socket, \<open>JSON.stringify({type, chat_id, group_id, content})\<close>;
  a join frame has no \<open>content\<close>.\<close>

datatype frame = Frame jsstring jsval jsval "jsstring option"

text \<open>A \<open>div.message\<close> of the message area: class \<open>sent\<close> or \<open>received\<close>, the HTML
  inside its \<open>msg-bubble\<close>, and the timestamp its \<open>msg-meta\<close> time is formatted from.\<close>

record message_div =
  sent :: bool
  bubble_html :: jsstring
  meta_time :: jsval

record toast =
  toast_text :: jsstring
  toast_kind :: jsstring

record list_item =
  item_active :: bool
  item_name :: jsstring

datatype timer_cb = ConnectWebSocket | RemoveToast toast

datatype effect =
    NewWebSocket nat jsstring
  | Close nat
  | Send nat frame
  | Fetch "unit request"
  | SetTimeout timer_cb nat

record client =
  token :: jsval
  user :: "user_obj option"
  privateChats :: "private_chat list"
  activeChat :: "chat_ref option"
  socket :: "nat option"
  sockets :: "websocket list"
  timers :: "(timer_cb \<times> nat) list"
  chat_list :: "list_item list"
  chat_title :: jsstring
  messages_area :: "message_div list"
  message_input :: jsstring
  toasts :: "toast list"
  trace :: "effect list"

text \<open>How a call ends: it returns, or it throws with the state as it is at the throw.\<close>

datatype completion = Normal | Throw exn

subsection \<open>WebSocket objects\<close>

definition ready :: "client \<Rightarrow> nat \<Rightarrow> ready_state option" where
  "ready s i = (if i < length (sockets s) then Some (readyState (sockets s ! i)) else None)"

definition update_socket :: "nat \<Rightarrow> (websocket \<Rightarrow> websocket) \<Rightarrow> client \<Rightarrow> client" where
  "update_socket i f s =
     (if i < length (sockets s) then s\<lparr>sockets := (sockets s)[i := f (sockets s ! i)]\<rparr> else s)"

text \<open>\<open>socket.close()\<close>: a connecting or open socket starts closing; on a closing or
  closed one the call does nothing.\<close>

definition ws_close :: "nat \<Rightarrow> client \<Rightarrow> client" where
  "ws_close i s =
     (update_socket i
        (\<lambda>w. w\<lparr>readyState :=
                 (if readyState w = CONNECTING \<or> readyState w = OPEN then CLOSING
                  else readyState w)\<rparr>) s)
     \<lparr>trace := trace s @ [Close i]\<rparr>"

definition ws_send :: "nat \<Rightarrow> frame \<Rightarrow> client \<Rightarrow> client" where
  "ws_send i f s = s\<lparr>trace := trace s @ [Send i f]\<rparr>"

text \<open>\<open>state.socket && state.socket.readyState === WebSocket.OPEN\<close>: the socket that
  the test finds open, if any.\<close>

definition open_socket :: "client \<Rightarrow> nat option" where
  "open_socket s =
     (case socket s of
        None \<Rightarrow> None
      | Some i \<Rightarrow> if ready s i = Some OPEN then Some i else None)"

subsection \<open>Toasts and the message area\<close>

text \<open>
  \<^verbatim>\<open>
  function showToast(message, type = 'info') {
      const container = document.getElementById('toast-container');
      const toast = document.createElement('div');
      toast.className = `toast ${type}`;
      toast.textContent = message;
      container.appendChild(toast);
      setTimeout(() => toast.remove(), 3000);
  }
  \<close>
\<close>

definition showToast :: "jsstring \<Rightarrow> jsstring \<Rightarrow> client \<Rightarrow> client" where
  "showToast msg kind s =
     (let t = \<lparr>toast_text = msg, toast_kind = kind\<rparr>
      in s\<lparr>toasts := toasts s @ [t],
           timers := timers s @ [(RemoveToast t, 3000)],
           trace := trace s @ [SetTimeout (RemoveToast t) 3000]\<rparr>)"

text \<open>
  \<^verbatim>\<open>
  function appendMessage(msg, isMe) {
      const area = document.getElementById('messages-area');
      const div = document.createElement('div');
      div.className = `message ${isMe ? 'sent' : 'received'}`;
      const time = new Date(msg.timestamp).toLocaleTimeString([], {...});
      div.innerHTML = `
          <div class="msg-bubble">${escapeHtml(msg.content)}</div>
          <div class="msg-meta">${time}</div>
      `;
      area.appendChild(div);
      area.scrollTop = area.scrollHeight;
  }
  \<close>
\<close>

definition appendMessage :: "message \<Rightarrow> bool \<Rightarrow> client \<Rightarrow> client" where
  "appendMessage msg isMe s =
     s\<lparr>messages_area := messages_area s @
          [\<lparr>sent = isMe, bubble_html = escapeHtml (content msg), meta_time = timestamp msg\<rparr>]\<rparr>"

subsection \<open>The chat list\<close>

text \<open>
  \<^verbatim>\<open>
  function renderChatList() {
      const list = document.getElementById('private-chat-list');
      list.innerHTML = '';
      state.privateChats.forEach(chat => {
          const li = document.createElement('li');
          li.className = `list-item ${state.activeChat && state.activeChat.id === chat.id ? 'active' : ''}`;
          li.onclick = () => openChat(chat.id, 'private', chat.other_participant);
          li.innerHTML = `
              <div class="item-avatar">${chat.other_participant[0].toUpperCase()}</div>
              <div class="item-info">
                  <span class="item-name">${chat.other_participant}</span>
              </div>
          `;
          list.appendChild(li);
      });
  }
  \<close>
  \<open>chat.other_participant[0].toUpperCase()\<close> throws a TypeError unless the name is a
  string that is not empty; the items appended before the throw stay.
\<close>

fun render_items ::
  "chat_ref option \<Rightarrow> private_chat list \<Rightarrow> list_item list \<Rightarrow> completion \<times> list_item list" where
  "render_items ac [] items = (Normal, items)"
| "render_items ac (c # cs) items =
     (case other_participant c of
        Str n \<Rightarrow>
          if n = [] then (Throw TypeError, items)
          else render_items ac cs
                 (items @ [\<lparr>item_active = (case ac of None \<Rightarrow> False | Some a \<Rightarrow> ac_id a = pc_id c),
                            item_name = n\<rparr>])
      | _ \<Rightarrow> (Throw TypeError, items))"

definition renderChatList :: "client \<Rightarrow> completion \<times> client" where
  "renderChatList s =
     (case render_items (activeChat s) (privateChats s) [] of
        (c, items) \<Rightarrow> (c, s\<lparr>chat_list := items\<rparr>))"

subsection \<open>openChat\<close>

text \<open>
  \<^verbatim>\<open>
  async function openChat(chatId, type, title) {
      state.activeChat = { id: chatId, type };
      ...
      document.getElementById('active-chat-title').textContent = title;
      document.getElementById('messages-area').innerHTML = ''; // Clear previous
      renderChatList();
      // Join WS room
      if (state.socket && state.socket.readyState === WebSocket.OPEN) {
          state.socket.send(JSON.stringify({
              type: type === 'private' ? 'join_private_chat' : 'join_group_chat',
              chat_id: chatId, group_id: chatId }));
      }
      // Load history
      try {
          const endpoint = type === 'private' ? `/api/chats/private/${chatId}`
                                              : `/api/chats/groups/${chatId}`;
          const res = await apiCall(endpoint);
          res.messages.forEach(msg => {
              appendMessage(msg, msg.sender_id === state.user.id);
          });
      } catch (err) { console.error('Failed to load messages', err); }
  }
  \<close>
  \<open>openChat\<close> is the part that runs at the call, up to the \<open>fetch\<close> inside
  \<open>apiCall\<close>; \<open>openChat_resume\<close> is the part after the \<open>await\<close>, run when the request
  has settled.
\<close>

definition history_endpoint :: "jsval \<Rightarrow> jsval \<Rightarrow> jsstring" where
  "history_endpoint chatId type =
     (if type = Str (js ''private'') then js ''/api/chats/private/'' @ to_string chatId
      else js ''/api/chats/groups/'' @ to_string chatId)"

definition join_frame :: "jsval \<Rightarrow> jsval \<Rightarrow> frame" where
  "join_frame chatId type =
     Frame (if type = Str (js ''private'') then js ''join_private_chat''
            else js ''join_group_chat'') chatId chatId None"

definition openChat :: "jsval \<Rightarrow> jsval \<Rightarrow> jsstring \<Rightarrow> client \<Rightarrow> completion \<times> client" where
  "openChat chatId type title s =
     (let s1 = s\<lparr>activeChat := Some \<lparr>ac_id = chatId, ac_type = type\<rparr>,
                 chat_title := title, messages_area := []\<rparr>
      in case renderChatList s1 of
           (Throw e, s2) \<Rightarrow> (Throw e, s2)
         | (Normal, s2) \<Rightarrow>
             (let s3 = (case open_socket s2 of
                          None \<Rightarrow> s2
                        | Some i \<Rightarrow> ws_send i (join_frame chatId type) s2)
              in (Normal,
                  s3\<lparr>trace := trace s3 @
                       [Fetch (apiCall_request (token s3) (history_endpoint chatId type)
                                 (js ''GET'') None False)]\<rparr>)))"

text \<open>The \<open>forEach\<close> over \<open>res.messages\<close>: reading \<open>state.user.id\<close> throws when
  \<open>state.user\<close> is \<open>null\<close>, which ends the loop in the \<open>catch\<close>.\<close>

fun append_history :: "message list \<Rightarrow> client \<Rightarrow> client" where
  "append_history [] s = s"
| "append_history (m # ms) s =
     (case user s of
        None \<Rightarrow> s
      | Some u \<Rightarrow> append_history ms (appendMessage m (sender_id m = user_id u) s))"

text \<open>The argument is \<open>res.messages\<close>, or \<open>None\<close> when \<open>apiCall\<close> threw or the body has
  no array \<open>messages\<close> (both end in the \<open>catch\<close>).\<close>

definition openChat_resume :: "message list option \<Rightarrow> client \<Rightarrow> client" where
  "openChat_resume res s = (case res of None \<Rightarrow> s | Some ms \<Rightarrow> append_history ms s)"

subsection \<open>sendMessage\<close>

text \<open>
  \<^verbatim>\<open>
  async function sendMessage(e) {
      e.preventDefault();
      if (!state.activeChat) return;
      const input = document.getElementById('message-input');
      const content = input.value.trim();
      if (!content) return;
      if (state.socket && state.socket.readyState === WebSocket.OPEN) {
          // Optimistic UI update
          const tempMsg = {
              content: content,
              timestamp: new Date().toISOString(),
              sender_id: state.user.id,
              sender_name: state.user.nick_name
          };
          appendMessage(tempMsg, true);
          state.socket.send(JSON.stringify({
              type: state.activeChat.type === 'private' ? 'private_message' : 'group_message',
              chat_id: state.activeChat.id, // for private
              group_id: state.activeChat.id, // for group
              content: content
          }));
          input.value = '';
      } else {
          showToast('Connection lost', 'error');
      }
  }
  \<close>
  The first argument is \<open>new Date().toISOString()\<close> at the call.
  \<open>e.preventDefault()\<close> acts on the submit event, not on the client. Reading
  \<open>state.user.id\<close> throws a TypeError when \<open>state.user\<close> is \<open>null\<close>.
\<close>

definition message_frame :: "chat_ref \<Rightarrow> jsstring \<Rightarrow> frame" where
  "message_frame ac c =
     Frame (if ac_type ac = Str (js ''private'') then js ''private_message''
            else js ''group_message'') (ac_id ac) (ac_id ac) (Some c)"

definition sendMessage :: "jsstring \<Rightarrow> client \<Rightarrow> completion \<times> client" where
  "sendMessage now s =
     (case activeChat s of
        None \<Rightarrow> (Normal, s)
      | Some ac \<Rightarrow>
          (let c = trim (message_input s)
           in if c = [] then (Normal, s)
              else
                (case open_socket s of
                   Some i \<Rightarrow>
                     (case user s of
                        None \<Rightarrow> (Throw TypeError, s)
                      | Some u \<Rightarrow>
                          (let tempMsg = \<lparr>content = Str c, timestamp = Str now,
                                          sender_id = user_id u, sender_name = nick_name u\<rparr>;
                               s1 = appendMessage tempMsg True s;
                               s2 = ws_send i (message_frame ac c) s1
                           in (Normal, s2\<lparr>message_input := []\<rparr>)))
                 | None \<Rightarrow> (Normal, showToast (js ''Connection lost'') (js ''error'') s))))"

subsection \<open>Events of the socket\<close>

text \<open>The parsed frame \<open>data\<close>. \<open>data.message\<close> is a message object for a \<open>message\<close>
  event and a string for an \<open>error\<close> event.\<close>

datatype payload = NoPayload | Text jsstring | Msg message

record ws_data =
  data_type :: jsval
  chat_type :: jsval
  chat_id :: jsval
  group_id :: jsval
  data_message :: payload

text \<open>\<open>data.message\<close> read as an object: a property of \<open>undefined\<close> cannot be read;
  a property of a string that is not its own is \<open>undefined\<close>.\<close>

fun as_message :: "payload \<Rightarrow> message option" where
  "as_message NoPayload = None"
| "as_message (Text t) =
     Some \<lparr>content = Undefined, timestamp = Undefined, sender_id = Undefined,
           sender_name = Undefined\<rparr>"
| "as_message (Msg m) = Some m"

text \<open>\<open>toast.textContent = data.message\<close>\<close>

fun text_content :: "payload \<Rightarrow> jsstring" where
  "text_content NoPayload = []"
| "text_content (Text t) = t"
| "text_content (Msg m) = js ''[object Object]''"

definition new_message_toast :: "payload \<Rightarrow> client \<Rightarrow> completion \<times> client" where
  "new_message_toast p s =
     (case as_message p of
        None \<Rightarrow> (Throw TypeError, s)
      | Some m \<Rightarrow>
          (Normal, showToast (js ''New message from '' @ to_string (sender_name m))
                     (js ''success'') s))"

text \<open>
  \<^verbatim>\<open>
  function handleWsMessage(data) {
      if (data.type === 'message') {
          // Check if message belongs to active chat
          if (state.activeChat) {
              const isTargetChat = (data.chat_type === 'private' && data.chat_id === state.activeChat.id) ||
                  (data.chat_type === 'group' && data.group_id === state.activeChat.id);
              if (isTargetChat) {
                  appendMessage(data.message, data.message.sender_id === state.user.id);
              } else {
                  showToast(`New message from ${data.message.sender_name}`, 'success');
              }
          } else {
              showToast(`New message from ${data.message.sender_name}`, 'success');
          }
      } else if (data.type === 'message_sent') {
          // Acknowledge sent, maybe play sound
      } else if (data.type === 'error') {
          showToast(data.message, 'error');
      }
  }
  \<close>
\<close>

definition handleWsMessage :: "ws_data \<Rightarrow> client \<Rightarrow> completion \<times> client" where
  "handleWsMessage data s =
     (if data_type data = Str (js ''message'') then
        (case activeChat s of
           Some ac \<Rightarrow>
             (let isTargetChat =
                    (chat_type data = Str (js ''private'') \<and> chat_id data = ac_id ac) \<or>
                    (chat_type data = Str (js ''group'') \<and> group_id data = ac_id ac)
              in if isTargetChat then
                   (case as_message (data_message data) of
                      None \<Rightarrow> (Throw TypeError, s)
                    | Some m \<Rightarrow>
                        (case user s of
                           None \<Rightarrow> (Throw TypeError, s)
                         | Some u \<Rightarrow> (Normal, appendMessage m (sender_id m = user_id u) s)))
                 else new_message_toast (data_message data) s)
         | None \<Rightarrow> new_message_toast (data_message data) s)
      else if data_type data = Str (js ''message_sent'') then (Normal, s)
      else if data_type data = Str (js ''error'') then
        (Normal, showToast (text_content (data_message data)) (js ''error'') s)
      else (Normal, s))"

text \<open>
  \<^verbatim>\<open>
  function connectWebSocket() {
      if (!state.token || state.token === 'null' || state.token === 'undefined') return;
      if (state.socket) {
          state.socket.onclose = null;
          state.socket.close();
      }
      const token = encodeURIComponent(state.token);
      state.socket = new WebSocket(`${WS_URL}?token=${token}`);
      state.socket.onopen = () => {
          ...
          // Re-join active chat if any
          if (state.activeChat) {
              openChat(state.activeChat.id, state.activeChat.type,
                       document.getElementById('active-chat-title').textContent);
          }
      };
      state.socket.onmessage = (event) => {
          const data = JSON.parse(event.data);
          handleWsMessage(data);
      };
      state.socket.onclose = () => {
          ...
          if (state.token) {
              setTimeout(connectWebSocket, 3000); // Reconnect only if logged in
          }
      };
  }
  \<close>
\<close>

definition connectWebSocket :: "client \<Rightarrow> completion \<times> client" where
  "connectWebSocket s =
     (if \<not> truthy (token s) \<or> token s = Str (js ''null'') \<or> token s = Str (js ''undefined'')
      then (Normal, s)
      else
        (let s1 = (case socket s of
                     None \<Rightarrow> s
                   | Some i \<Rightarrow> ws_close i (update_socket i (\<lambda>w. w\<lparr>has_onclose := False\<rparr>) s))
         in if \<not> well_formed (to_string (token s1)) then (Throw URIError, s1)
            else
              (let i = length (sockets s1)
               in (Normal,
                   s1\<lparr>sockets := sockets s1 @
                         [\<lparr>ws_token = to_string (token s1), readyState = CONNECTING,
                           has_onclose = True\<rparr>],
                       socket := Some i,
                       trace := trace s1 @ [NewWebSocket i (to_string (token s1))]\<rparr>))))"

definition socket_onopen :: "client \<Rightarrow> client" where
  "socket_onopen s =
     (case activeChat s of
        None \<Rightarrow> s
      | Some ac \<Rightarrow> snd (openChat (ac_id ac) (ac_type ac) (chat_title s) s))"

text \<open>The argument is the parsed frame, or \<open>None\<close> when \<open>JSON.parse\<close> throws or gives
  a value that is not an object (then no branch of \<open>handleWsMessage\<close> does anything,
  or reading \<open>data.type\<close> of \<open>null\<close> throws).\<close>

definition socket_onmessage :: "ws_data option \<Rightarrow> client \<Rightarrow> client" where
  "socket_onmessage d s = (case d of None \<Rightarrow> s | Some data \<Rightarrow> snd (handleWsMessage data s))"

definition socket_onclose :: "client \<Rightarrow> client" where
  "socket_onclose s =
     (if truthy (token s) then
        s\<lparr>timers := timers s @ [(ConnectWebSocket, 3000)],
          trace := trace s @ [SetTimeout ConnectWebSocket 3000]\<rparr>
      else s)"

text \<open>
  \<^verbatim>\<open>
  function handleLogout() {
      state.token = null;
      state.user = null;
      localStorage.removeItem('token');
      localStorage.removeItem('user');
      if (state.socket) {
          state.socket.onclose = null; // Prevent reconnect triggering
          state.socket.close();
          state.socket = null;
      }
      navigate('view-auth');
  }
  \<close>
\<close>

definition handleLogout :: "client \<Rightarrow> client" where
  "handleLogout s =
     (let s1 = s\<lparr>token := Null, user := None\<rparr>
      in case socket s1 of
           None \<Rightarrow> s1
         | Some i \<Rightarrow>
             (ws_close i (update_socket i (\<lambda>w. w\<lparr>has_onclose := False\<rparr>) s1))\<lparr>socket := None\<rparr>)"

subsection \<open>Logging in and loading the page\<close>

text \<open>
  \<^verbatim>\<open>
  async function loadInitialData() {
      updateUserInfo();
      await loadChats();
      ...
  }
  function updateUserInfo() {
      if (state.user) {
          document.getElementById('current-user-name').textContent = state.user.nick_name;
          document.getElementById('current-user-avatar').textContent = state.user.nick_name[0].toUpperCase();
      }
  }
  async function loadChats() {
      try {
          const res = await apiCall('/api/chats/private');
          state.privateChats = res.chats;
          renderChatList();
      } catch (err) { console.error('Failed to load chats', err); }
  }
  \<close>
  \<open>loadChats\<close> is the part up to the \<open>fetch\<close>, \<open>loadChats_resume\<close> the part after the
  \<open>await\<close>; its argument is \<open>res.chats\<close>, or \<open>None\<close> when \<open>apiCall\<close> threw. The response
  is taken to carry an array \<open>chats\<close>.
\<close>

definition loadChats :: "client \<Rightarrow> client" where
  "loadChats s =
     s\<lparr>trace := trace s @
          [Fetch (apiCall_request (token s) (js ''/api/chats/private'') (js ''GET'') None False)]\<rparr>"

definition loadChats_resume :: "private_chat list option \<Rightarrow> client \<Rightarrow> client" where
  "loadChats_resume res s =
     (case res of None \<Rightarrow> s | Some chats \<Rightarrow> snd (renderChatList (s\<lparr>privateChats := chats\<rparr>)))"

definition loadInitialData :: "client \<Rightarrow> completion \<times> client" where
  "loadInitialData s =
     (case user s of
        None \<Rightarrow> (Normal, loadChats s)
      | Some u \<Rightarrow> if truthy (nick_name u) then (Normal, loadChats s) else (Throw TypeError, s))"

text \<open>
  \<^verbatim>\<open>
  async function handleLogin(e) {
      ...
      try {
          const res = await apiCall('/api/auth/login', 'POST', { nick_name: username, password });
          state.token = res.access_token;
          state.user = res.user;
          localStorage.setItem('token', state.token);
          localStorage.setItem('user', JSON.stringify(state.user));
          showToast('Login successful', 'success');
          navigate('view-app');
          connectWebSocket();
          loadInitialData();
      } catch (err) {
          showToast(err.message, 'error');
      }
  }
  \<close>
  \<open>handleSignup\<close> is the same with the toast \<open>Account created\<close>. \<open>handleLogin_resume\<close> is the
  part after the \<open>await\<close> when \<open>apiCall\<close> has returned \<open>res\<close>; its arguments are the
  toast, \<open>res.access_token\<close> and \<open>res.user\<close>. The only throw in it that the \<open>catch\<close>
  sees is the URIError of \<open>connectWebSocket\<close> (\<open>loadInitialData\<close> is not awaited), whose
  message is \<open>URI malformed\<close>.
\<close>

definition handleLogin_resume :: "jsstring \<Rightarrow> jsval \<Rightarrow> user_obj option \<Rightarrow> client \<Rightarrow> client" where
  "handleLogin_resume greeting access_token usr s =
     (let s1 = showToast greeting (js ''success'') (s\<lparr>token := access_token, user := usr\<rparr>)
      in case connectWebSocket s1 of
           (Throw e, s2) \<Rightarrow> showToast (js ''URI malformed'') (js ''error'') s2
         | (Normal, s2) \<Rightarrow> snd (loadInitialData s2))"

text \<open>
  \<^verbatim>\<open>
  document.addEventListener('DOMContentLoaded', () => {
      initAuth();
      setupEventListeners();
      if (state.token) {
          navigate('view-app');
          connectWebSocket();
          loadInitialData();
      } else {
          navigate('view-auth');
      }
  });
  \<close>
  The state when the page has loaded, from the token and the user of \<open>localStorage\<close>.
  The page starts with an empty chat list, title, message area, input and toast
  container.
\<close>

definition blank :: "jsval \<Rightarrow> user_obj option \<Rightarrow> client" where
  "blank tok usr =
     \<lparr>token = tok, user = usr, privateChats = [], activeChat = None, socket = None,
      sockets = [], timers = [], chat_list = [], chat_title = [], messages_area = [],
      message_input = [], toasts = [], trace = []\<rparr>"

definition init :: "jsval \<Rightarrow> user_obj option \<Rightarrow> client" where
  "init tok usr =
     (if truthy tok then
        (case connectWebSocket (blank tok usr) of
           (Throw e, s) \<Rightarrow> s
         | (Normal, s) \<Rightarrow> snd (loadInitialData s))
      else blank tok usr)"

subsection \<open>The event loop\<close>

text \<open>
  What can happen to the loaded page, one handler run to completion at a time:
  a login or signup request returns, the user logs out, a socket opens, receives a
  frame or closes, a timer fires, the message form is submitted, the input is edited,
  a chat is opened (from the chat list or after \<open>createPrivateChat\<close>), the history or
  chat list request settles, the chat list is reloaded, or one of the functions that
  are not modelled (contacts, admin panel, contact form) shows a toast. Those functions
  write neither \<open>state.token\<close>, \<open>state.user\<close>, \<open>state.activeChat\<close> nor \<open>state.socket\<close>,
  create no socket and set no timer for \<open>connectWebSocket\<close>.
\<close>

datatype event =
    LoggedIn jsstring jsval "user_obj option"
  | Logout
  | SocketOpened nat
  | SocketMessage nat "ws_data option"
  | SocketClosed nat
  | TimerFired nat
  | Submit jsstring
  | Input jsstring
  | OpenChat jsval jsval jsstring
  | HistoryLoaded "message list option"
  | LoadChats
  | ChatsLoaded "private_chat list option"
  | Toast jsstring jsstring

definition fire :: "timer_cb \<Rightarrow> client \<Rightarrow> client" where
  "fire cb s =
     (case cb of
        ConnectWebSocket \<Rightarrow> snd (connectWebSocket s)
      | RemoveToast t \<Rightarrow> s\<lparr>toasts := remove1 t (toasts s)\<rparr>)"

fun step :: "client \<Rightarrow> event \<Rightarrow> client" where
  "step s (LoggedIn greeting tok usr) = handleLogin_resume greeting tok usr s"
| "step s Logout = handleLogout s"
| "step s (SocketOpened i) =
     (if ready s i = Some CONNECTING
      then socket_onopen (update_socket i (\<lambda>w. w\<lparr>readyState := OPEN\<rparr>) s)
      else s)"
| "step s (SocketMessage i d) =
     (if ready s i = Some OPEN then socket_onmessage d s else s)"
| "step s (SocketClosed i) =
     (if i < length (sockets s) \<and> readyState (sockets s ! i) \<noteq> CLOSED then
        (let s1 = update_socket i (\<lambda>w. w\<lparr>readyState := CLOSED\<rparr>) s
         in if has_onclose (sockets s ! i) then socket_onclose s1 else s1)
      else s)"
| "step s (TimerFired k) =
     (if k < length (timers s)
      then fire (fst (timers s ! k)) (s\<lparr>timers := take k (timers s) @ drop (Suc k) (timers s)\<rparr>)
      else s)"
| "step s (Submit now) = snd (sendMessage now s)"
| "step s (Input v) = s\<lparr>message_input := v\<rparr>"
| "step s (OpenChat chatId type title) = snd (openChat chatId type title s)"
| "step s (HistoryLoaded res) = openChat_resume res s"
| "step s LoadChats = loadChats s"
| "step s (ChatsLoaded res) = loadChats_resume res s"
| "step s (Toast msg kind) = showToast msg kind s"

definition run :: "client \<Rightarrow> event list \<Rightarrow> client" where
  "run s es = foldl step s es"

subsection \<open>Predicates on runs of the client\<close>

text \<open>The effects that reconnect or schedule a reconnection: a new WebSocket, and a
  timer for \<open>connectWebSocket\<close>.\<close>

fun is_reconnect :: "effect \<Rightarrow> bool" where
  "is_reconnect (NewWebSocket i t) = True"
| "is_reconnect (SetTimeout cb ms) = (cb = ConnectWebSocket)"
| "is_reconnect e = False"

fun is_login :: "event \<Rightarrow> bool" where
  "is_login (LoggedIn g t u) = True"
| "is_login e = False"

text \<open>The trace of \<open>t\<close> is the trace of \<open>s\<close> followed by effects that do not
  reconnect.\<close>

definition quiet :: "client \<Rightarrow> client \<Rightarrow> bool" where
  "quiet s t \<longleftrightarrow>
     take (length (trace s)) (trace t) = trace s \<and>
     list_all (\<lambda>e. \<not> is_reconnect e) (drop (length (trace s)) (trace t))"

text \<open>No HTML bracket stands in a bubble of the message area.\<close>

definition area_clean :: "client \<Rightarrow> bool" where
  "area_clean s \<longleftrightarrow>
     list_all (\<lambda>d. 0x3C \<notin> set (bubble_html d) \<and> 0x3E \<notin> set (bubble_html d)) (messages_area s)"

text \<open>The sockets of a state that the event loop reaches: \<open>state.socket\<close> refers to a
  socket that exists; every other socket has lost its \<open>onclose\<close> handler and is closing
  or closed; \<open>state.socket\<close> has its handler while it is connecting or open.\<close>

definition conn_inv :: "client \<Rightarrow> bool" where
  "conn_inv s \<longleftrightarrow>
     (\<forall>i. socket s = Some i \<longrightarrow> i < length (sockets s)) \<and>
     (\<forall>j < length (sockets s). socket s \<noteq> Some j \<longrightarrow>
        \<not> has_onclose (sockets s ! j) \<and>
        (readyState (sockets s ! j) = CLOSING \<or> readyState (sockets s ! j) = CLOSED)) \<and>
     (\<forall>j < length (sockets s). socket s = Some j \<longrightarrow>
        readyState (sockets s ! j) = CONNECTING \<or> readyState (sockets s ! j) = OPEN \<longrightarrow>
        has_onclose (sockets s ! j))"

text \<open>Logged out: no token, and no socket with an \<open>onclose\<close> handler.\<close>

definition logged_out :: "client \<Rightarrow> bool" where
  "logged_out s \<longleftrightarrow>
     \<not> truthy (token s) \<and> list_all (\<lambda>w. \<not> has_onclose w) (sockets s)"

subsection \<open>Notions used in the proofs about the client\<close>

text \<open>\<open>t\<close> has the token and the sockets of \<open>s\<close> and has logged no reconnection.\<close>

definition same_conn :: "client \<Rightarrow> client \<Rightarrow> bool" where
  "same_conn s t \<longleftrightarrow>
     token t = token s \<and> socket t = socket s \<and> sockets t = sockets s \<and> quiet s t"

text \<open>A socket without \<open>onclose\<close> handler that is closing or closed.\<close>

definition dead :: "websocket \<Rightarrow> bool" where
  "dead w \<longleftrightarrow> \<not> has_onclose w \<and> (readyState w = CLOSING \<or> readyState w = CLOSED)"

text \<open>The two statements \<open>state.socket.onclose = null; state.socket.close();\<close> under
  \<open>if (state.socket)\<close>, which \<open>connectWebSocket\<close> and \<open>handleLogout\<close> share.\<close>

definition detach :: "client \<Rightarrow> client" where
  "detach s =
     (case socket s of
        None \<Rightarrow> s
      | Some i \<Rightarrow> ws_close i (update_socket i (\<lambda>w. w\<lparr>has_onclose := False\<rparr>) s))"

subsection \<open>An example session\<close>

definition ann :: user_obj where
  "ann = \<lparr>user_id = Str (js ''u1''), nick_name = Str (js ''ann'')\<rparr>"

definition chat1 :: private_chat where
  "chat1 = \<lparr>pc_id = Str (js ''c1''), other_participant = Str (js ''bob'')\<rparr>"

text \<open>Ann's page loads with a stored token; the socket opens, the chat list arrives,
  she opens the chat with Bob, its (empty) history arrives, and she types a message.\<close>

definition example_events :: "event list" where
  "example_events =
     [SocketOpened 0, ChatsLoaded (Some [chat1]),
      OpenChat (Str (js ''c1'')) (Str (js ''private'')) (js ''bob''),
      HistoryLoaded (Some []), Input (js '' hi '')]"

definition example_client :: client where
  "example_client = run (init (Str (js ''tok'')) (Some ann)) example_events"

text \<open>The server's acknowledgment of a send, and its broadcast of Ann's own message to
  the chat with Bob.\<close>

definition example_ack :: ws_data where
  "example_ack =
     \<lparr>data_type = Str (js ''message_sent''), chat_type = Undefined, chat_id = Undefined,
      group_id = Undefined, data_message = NoPayload\<rparr>"

definition example_broadcast :: ws_data where
  "example_broadcast =
     \<lparr>data_type = Str (js ''message''), chat_type = Str (js ''private''),
      chat_id = Str (js ''c1''), group_id = Undefined,
      data_message = Msg \<lparr>content = Str (js ''hi''), timestamp = Str (js ''10:00:01''),
                          sender_id = Str (js ''u1''), sender_name = Str (js ''ann'')\<rparr>\<rparr>"



section \<open>The routing core\<close>

text \<open>
  The server (\<open>server.py\<close>, \<open>database.py\<close>) is not among the sources. The definitions of
  this section follow sections 3, 4, 6 and 7 of the specification.
\<close>

type_synonym identity = nat
type_synonym room_id = nat

datatype room_kind = Private | Group

text \<open>Modelled from the spec: the Room of section 3 (the server's room directory is
  missing from the sources): its kind and its ordered member set.\<close>

record room =
  kind :: room_kind
  members :: "identity list"

text \<open>Modelled from the spec: the Connection of section 3 (the server's connection
  objects are missing): its unique id and its owning identity.\<close>

record connection =
  conn_id :: nat
  owner :: identity

text \<open>Modelled from the spec: the Message of section 3 (the server's message store is
  missing): room, sender, content, sequence number scoped to the room, timestamp.\<close>

record stored =
  m_room :: room_id
  m_sender :: identity
  m_content :: string
  m_seq :: nat
  m_time :: nat

text \<open>Modelled from the spec: the error taxonomy of section 7.\<close>

datatype route_error = AuthError | NotAMember | MessageTooLarge | StoreError | ResourceExhausted

text \<open>Modelled from the spec: the state of the core of section 2 (the server is missing):
  the Room Directory, the Connection Registry with its capacity, the Room Subscription
  Table as a set of (connection id, room id) pairs, and the append-only store.\<close>

record core =
  directory :: "room_id \<Rightarrow> room option"
  registry :: "connection list"
  capacity :: nat
  subscriptions :: "(nat \<times> room_id) set"
  store :: "stored list"

text \<open>The configured maximum, from the \<open>Settings\<close> class quoted in
  src/unnamed/part\_000: \<open>MAX_MESSAGE_LENGTH = 10000 # Max message length\<close>.\<close>

definition MAX_MESSAGE_LENGTH :: nat where
  "MAX_MESSAGE_LENGTH = 10000"

text \<open>Modelled from the spec: \<open>membersOf(roomId)\<close> of section 4.3 (the room directory is
  missing); a room that the directory does not know has no member.\<close>

definition membersOf :: "core \<Rightarrow> room_id \<Rightarrow> identity set" where
  "membersOf c r = (case directory c r of None \<Rightarrow> {} | Some rm \<Rightarrow> set (members rm))"

text \<open>Modelled from the spec: \<open>subscribersOf(roomId)\<close> of section 4.2 (the subscription
  table is missing): all currently joined connections.\<close>

definition subscribersOf :: "core \<Rightarrow> room_id \<Rightarrow> nat set" where
  "subscribersOf c r = {h. (h, r) \<in> subscriptions c}"

text \<open>Modelled from the spec: \<open>connect\<close> of section 4.1 (the registry is missing):
  it registers the connection and fails only when the registry is at capacity.\<close>

definition connect :: "core \<Rightarrow> connection \<Rightarrow> (route_error + unit) \<times> core" where
  "connect c h =
     (if capacity c \<le> length (registry c) then (Inl ResourceExhausted, c)
      else (Inr (), c\<lparr>registry := registry c @ [h]\<rparr>))"

text \<open>Modelled from the spec: \<open>disconnect\<close> of section 4.1 with \<open>dropAll\<close> of section 4.2
  (both missing): idempotent, it removes the connection and all its subscriptions in
  one step.\<close>

definition disconnect :: "core \<Rightarrow> nat \<Rightarrow> core" where
  "disconnect c i =
     c\<lparr>registry := filter (\<lambda>h. conn_id h \<noteq> i) (registry c),
       subscriptions := {p \<in> subscriptions c. fst p \<noteq> i}\<rparr>"

text \<open>Modelled from the spec: \<open>join\<close> of section 4.2 (the subscription table is missing):
  it fails with \<open>NotAMember\<close> if the identity owning the connection is not in the room's
  member set, read from the directory at the call; on success it registers the
  subscription.\<close>

definition join :: "core \<Rightarrow> connection \<Rightarrow> room_id \<Rightarrow> (route_error + unit) \<times> core" where
  "join c h r =
     (if owner h \<in> membersOf c r
      then (Inr (), c\<lparr>subscriptions := insert (conn_id h, r) (subscriptions c)\<rparr>)
      else (Inl NotAMember, c))"

text \<open>Modelled from the spec: \<open>leave\<close> of section 4.2 (the subscription table is missing):
  idempotent removal.\<close>

definition leave :: "core \<Rightarrow> connection \<Rightarrow> room_id \<Rightarrow> (route_error + unit) \<times> core" where
  "leave c h r = (Inr (), c\<lparr>subscriptions := subscriptions c - {(conn_id h, r)}\<rparr>)"

text \<open>Modelled from the spec: the messages of a room in the store, in the order of
  their appends (the store of section 6 is missing).\<close>

definition room_log :: "core \<Rightarrow> room_id \<Rightarrow> stored list" where
  "room_log c r = filter (\<lambda>m. m_room m = r) (store c)"

text \<open>Modelled from the spec: "the next sequence number for the room" of section 4.4,
  step 3 (the store is missing): one more than the number of the room's last message,
  and 1 for a room without messages (Scenario A).\<close>

definition next_seq :: "core \<Rightarrow> room_id \<Rightarrow> nat" where
  "next_seq c r = (case room_log c r of [] \<Rightarrow> 1 | m # ms \<Rightarrow> Suc (m_seq (last (m # ms))))"

text \<open>Modelled from the spec: \<open>append\<close> of the abstract store boundary of section 6
  (the store is missing). The first argument says whether the store accepts the append
  (\<open>False\<close>: the simulated outage of Scenario D). The sequence number is assigned only
  when the store accepts (section 7).\<close>

definition append :: "bool \<Rightarrow> core \<Rightarrow> room_id \<Rightarrow> identity \<Rightarrow> string \<Rightarrow> nat
    \<Rightarrow> route_error + (nat \<times> core)" where
  "append accepts c r u txt ts =
     (if \<not> accepts then Inl StoreError
      else Inr (next_seq c r,
                c\<lparr>store := store c @
                     [\<lparr>m_room = r, m_sender = u, m_content = txt, m_seq = next_seq c r,
                       m_time = ts\<rparr>]\<rparr>))"

text \<open>Modelled from the spec: the \<open>RoutedMessage\<close> that \<open>route\<close> returns (section 4.4):
  the appended message, the fan-out set it is delivered to, and the sequence number
  of the acknowledgment to the sender.\<close>

record routed =
  routed_message :: stored
  fanout :: "nat set"
  ack :: nat

text \<open>Modelled from the spec: \<open>route\<close> of section 4.4 (the message router is missing),
  steps 1 to 6 in their order: the length check, the membership check, the append, the
  fan-out set read after the append, and the acknowledgment.\<close>

definition route :: "bool \<Rightarrow> core \<Rightarrow> identity \<Rightarrow> room_id \<Rightarrow> string \<Rightarrow> nat
    \<Rightarrow> (route_error + routed) \<times> core" where
  "route accepts c u r txt ts =
     (if MAX_MESSAGE_LENGTH < length txt then (Inl MessageTooLarge, c)
      else if u \<notin> membersOf c r then (Inl NotAMember, c)
      else
        (case append accepts c r u txt ts of
           Inl e \<Rightarrow> (Inl e, c)
         | Inr (n, c') \<Rightarrow>
             (Inr \<lparr>routed_message = last (store c'), fanout = subscribersOf c' r, ack = n\<rparr>,
              c')))"

text \<open>Modelled from the spec: the operations that reach the core, one at a time (the
  per-room serialisation of section 5): the calls of sections 4.1, 4.2 and 4.4, and a
  change of a room's membership by an external collaborator (section 4.3).\<close>

datatype op =
    Connect connection
  | Disconnect nat
  | Join connection room_id
  | Leave connection room_id
  | Route bool identity room_id string nat
  | SetRoom room_id "room option"

datatype reply = Done | Refused route_error | Routed room_id routed

text \<open>Modelled from the spec: one operation on the core, with its reply.\<close>

fun core_step :: "core \<Rightarrow> op \<Rightarrow> reply \<times> core" where
  "core_step c (Connect h) =
     (case connect c h of (Inl e, c') \<Rightarrow> (Refused e, c') | (Inr u, c') \<Rightarrow> (Done, c'))"
| "core_step c (Disconnect i) = (Done, disconnect c i)"
| "core_step c (Join h r) =
     (case join c h r of (Inl e, c') \<Rightarrow> (Refused e, c') | (Inr u, c') \<Rightarrow> (Done, c'))"
| "core_step c (Leave h r) =
     (case leave c h r of (Inl e, c') \<Rightarrow> (Refused e, c') | (Inr u, c') \<Rightarrow> (Done, c'))"
| "core_step c (Route accepts u r txt ts) =
     (case route accepts c u r txt ts of
        (Inl e, c') \<Rightarrow> (Refused e, c')
      | (Inr m, c') \<Rightarrow> (Routed r m, c'))"
| "core_step c (SetRoom r rm) = (Done, c\<lparr>directory := (directory c)(r := rm)\<rparr>)"

text \<open>Modelled from the spec: a sequence of operations, with the replies in call
  order.\<close>

fun exec :: "core \<Rightarrow> op list \<Rightarrow> reply list \<times> core" where
  "exec c [] = ([], c)"
| "exec c (x # xs) =
     (case core_step c x of
        (rep, c') \<Rightarrow> (case exec c' xs of (reps, c'') \<Rightarrow> (rep # reps, c'')))"

text \<open>The sequence numbers acknowledged for a room, in call order.\<close>

fun acks :: "room_id \<Rightarrow> reply list \<Rightarrow> nat list" where
  "acks r [] = []"
| "acks r (Routed r' m # reps) = (if r' = r then ack m # acks r reps else acks r reps)"
| "acks r (rep # reps) = acks r reps"

text \<open>The sequence numbers of a room's messages, in the order of the store.\<close>

definition seqs :: "core \<Rightarrow> room_id \<Rightarrow> nat list" where
  "seqs c r = map m_seq (room_log c r)"

text \<open>A core for the examples: one private room 1 with the members 7 and 8, an empty
  store.\<close>

definition example_core :: core where
  "example_core =
     \<lparr>directory = (\<lambda>r. None)(1 := Some \<lparr>kind = Private, members = [7, 8]\<rparr>),
      registry = [], capacity = 10, subscriptions = {}, store = []\<rparr>"

section \<open>Properties of the routing core\<close>

lemma route_too_large:
  "MAX_MESSAGE_LENGTH < length tx \<Longrightarrow> route accepts c u r tx ts = (Inl MessageTooLarge, c)"
  by (simp add: route_def)

lemma route_store_error:
  "length tx \<le> MAX_MESSAGE_LENGTH \<Longrightarrow> u \<in> membersOf c r \<Longrightarrow>
   route False c u r tx ts = (Inl StoreError, c)"
  by (simp add: route_def append_def)

lemma route_accepted:
  "length tx \<le> MAX_MESSAGE_LENGTH \<Longrightarrow> u \<in> membersOf c r \<Longrightarrow>
   route True c u r tx ts =
     (Inr \<lparr>routed_message =
             \<lparr>m_room = r, m_sender = u, m_content = tx, m_seq = next_seq c r, m_time = ts\<rparr>,
           fanout = subscribersOf c r, ack = next_seq c r\<rparr>,
      c\<lparr>store := store c @
           [\<lparr>m_room = r, m_sender = u, m_content = tx, m_seq = next_seq c r, m_time = ts\<rparr>]\<rparr>)"
  by (simp add: route_def append_def subscribersOf_def)

lemma next_seq_wf:
  assumes a: "seqs c r = [1..<Suc n]"
  shows "next_seq c r = Suc n"
proof -
  have "length (seqs c r) = length [1..<Suc n]" using a by simp
  then have len: "length (room_log c r) = n" by (simp add: seqs_def del: upt_Suc)
  show ?thesis
  proof (cases "room_log c r")
    case Nil
    with len show ?thesis by (simp add: next_seq_def)
  next
    case (Cons m ms)
    then have ne: "room_log c r \<noteq> []" by simp
    with len have pos: "0 < n" by auto
    have "m_seq (last (room_log c r)) = last (seqs c r)"
      using ne by (simp add: seqs_def last_map)
    also have "\<dots> = last [1..<Suc n]" using a by simp
    also have "\<dots> = n" using pos by (simp add: last_upt del: upt_Suc)
    finally show ?thesis using Cons by (simp add: next_seq_def)
  qed
qed

lemma room_log_append:
  "room_log (c\<lparr>store := store c @ [m]\<rparr>) r =
     (if m_room m = r then room_log c r @ [m] else room_log c r)"
  by (simp add: room_log_def)

text \<open>One operation either leaves the room's log as it is and acknowledges nothing for
  the room, or appends one message with the next number and acknowledges that number.\<close>

lemma core_step_log:
  assumes wf: "seqs c r = [1..<Suc n]" and st: "core_step c x = (rep, c')"
  shows "(acks r [rep] = [] \<and> seqs c' r = [1..<Suc n]) \<or>
         (acks r [rep] = [Suc n] \<and> seqs c' r = [1..<Suc (Suc n)])"
proof (cases x)
  case (Route accepts u r' tx ts)
  show ?thesis
  proof (cases "MAX_MESSAGE_LENGTH < length tx \<or> u \<notin> membersOf c r' \<or> \<not> accepts")
    case True
    then have "rep = Refused MessageTooLarge \<or> rep = Refused NotAMember
                \<or> rep = Refused StoreError" and "c' = c"
      using st Route by (auto simp: route_def append_def split: if_splits)
    then show ?thesis using wf by auto
  next
    case False
    then have ok: "length tx \<le> MAX_MESSAGE_LENGTH" "u \<in> membersOf c r'"
      and acc: "accepts = True" by auto
    note ra = route_accepted[OF ok, of ts]
    have rep: "rep = Routed r'
                 \<lparr>routed_message = \<lparr>m_room = r', m_sender = u, m_content = tx,
                                     m_seq = next_seq c r', m_time = ts\<rparr>,
                  fanout = subscribersOf c r', ack = next_seq c r'\<rparr>"
      and c': "c' = c\<lparr>store := store c @
                     [\<lparr>m_room = r', m_sender = u, m_content = tx, m_seq = next_seq c r',
                       m_time = ts\<rparr>]\<rparr>"
      using st Route acc ra by auto
    show ?thesis
    proof (cases "r' = r")
      case True
      have ns: "next_seq c r = Suc n" using wf by (rule next_seq_wf)
      have "seqs c' r = seqs c r @ [Suc n]"
        unfolding c' seqs_def room_log_append using True ns by simp
      then have "seqs c' r = [1..<Suc (Suc n)]" using wf by simp
      moreover have "acks r [rep] = [Suc n]" using rep True ns by simp
      ultimately show ?thesis by simp
    next
      case False
      have "seqs c' r = seqs c r" unfolding c' seqs_def room_log_append using False by simp
      moreover have "acks r [rep] = []" using rep False by simp
      ultimately show ?thesis using wf by simp
    qed
  qed
next
  case (Connect h)
  then have "store c' = store c" "rep = Done \<or> rep = Refused ResourceExhausted"
    using st by (auto simp: connect_def split: if_splits)
  then show ?thesis using wf by (auto simp: seqs_def room_log_def)
next
  case (Disconnect i)
  then have "store c' = store c" "rep = Done" using st by (auto simp: disconnect_def)
  then show ?thesis using wf by (auto simp: seqs_def room_log_def)
next
  case (Join h r')
  then have "store c' = store c" "rep = Done \<or> rep = Refused NotAMember"
    using st by (auto simp: join_def split: if_splits)
  then show ?thesis using wf by (auto simp: seqs_def room_log_def)
next
  case (Leave h r')
  then have "store c' = store c" "rep = Done" using st by (auto simp: leave_def)
  then show ?thesis using wf by (auto simp: seqs_def room_log_def)
next
  case (SetRoom r' rm)
  then have "store c' = store c" "rep = Done" using st by auto
  then show ?thesis using wf by (auto simp: seqs_def room_log_def)
qed

lemma acks_Cons: "acks r (rep # reps) = acks r [rep] @ acks r reps"
  by (cases rep) auto

lemma exec_log:
  "seqs c r = [1..<Suc n] \<Longrightarrow>
   acks r (fst (exec c ops)) = [Suc n..<Suc (n + length (acks r (fst (exec c ops))))] \<and>
   seqs (snd (exec c ops)) r = [1..<Suc n] @ acks r (fst (exec c ops))"
proof (induction ops arbitrary: c n)
  case Nil
  then show ?case by simp
next
  case (Cons x xs)
  obtain rep c' where st: "core_step c x = (rep, c')" by (cases "core_step c x")
  obtain reps c'' where ex: "exec c' xs = (reps, c'')" by (cases "exec c' xs")
  have e: "exec c (x # xs) = (rep # reps, c'')" using st ex by simp
  from core_step_log[OF Cons.prems st]
  show ?case
  proof
    assume h: "acks r [rep] = [] \<and> seqs c' r = [1..<Suc n]"
    from Cons.IH[of c' n] h ex
    have "acks r reps = [Suc n..<Suc (n + length (acks r reps))] \<and>
          seqs c'' r = [1..<Suc n] @ acks r reps"
      by simp
    then show ?thesis using h e by (simp add: acks_Cons[of r rep reps] del: upt_Suc)
  next
    assume h: "acks r [rep] = [Suc n] \<and> seqs c' r = [1..<Suc (Suc n)]"
    from Cons.IH[of c' "Suc n"] h ex
    have ih: "acks r reps = [Suc (Suc n)..<Suc (Suc n + length (acks r reps))]"
      "seqs c'' r = [1..<Suc (Suc n)] @ acks r reps"
      by simp_all
    have hd: "acks r (rep # reps) = Suc n # acks r reps"
      using h by (simp add: acks_Cons[of r rep reps])
    have "Suc n # [Suc (Suc n)..<Suc (Suc n + k)] = [Suc n..<Suc (n + Suc k)]" for k
      by (simp add: upt_conv_Cons del: upt_Suc)
    with hd have "acks r (rep # reps) = [Suc n..<Suc (n + length (acks r (rep # reps)))]"
      using ih(1) by (metis length_Cons)
    moreover have "seqs c'' r = [1..<Suc n] @ acks r (rep # reps)"
      using ih(2) hd by simp
    ultimately show ?thesis using e by simp
  qed
qed

text \<open>
  C2. From an empty store, after any sequence of operations on the core (route calls
  on any rooms, accepted or refused, with store failures, between joins, leaves,
  connects, disconnects and membership changes), the sequence numbers acknowledged for
  a room are, in call order, 1, 2, ..., k: strictly increasing, without a gap, no number
  twice; and they are the numbers of the room's messages in the order of the store.
\<close>

theorem route_sequence_numbers:
  assumes "store c = []"
  shows "acks r (fst (exec c ops)) = [1..<Suc (length (acks r (fst (exec c ops))))] \<and>
         sorted_wrt (<) (acks r (fst (exec c ops))) \<and>
         distinct (acks r (fst (exec c ops))) \<and>
         map m_seq (room_log (snd (exec c ops)) r) = acks r (fst (exec c ops))"
proof -
  have "seqs c r = [1..<Suc 0]" using assms by (simp add: seqs_def room_log_def)
  from exec_log[OF this, of ops]
  have a: "acks r (fst (exec c ops)) = [1..<Suc (length (acks r (fst (exec c ops))))]"
    and b: "seqs (snd (exec c ops)) r = acks r (fst (exec c ops))"
    by simp_all
  have "sorted_wrt (<) (acks r (fst (exec c ops)))"
    by (subst a) (rule sorted_wrt_upt)
  moreover have "distinct (acks r (fst (exec c ops)))"
    by (subst a) (rule distinct_upt)
  ultimately show ?thesis using a b by (simp add: seqs_def)
qed

theorem route_sequence_numbers_witness:
  "store example_core = [] \<and>
   acks 1 (fst (exec example_core
     [Route True 7 1 ''hi'' 5, Route False 8 1 ''yo'' 6, Route True 8 1 ''yo'' 7,
      Route True 9 1 ''x'' 8, Route True 7 1 ''ok'' 9])) = [1, 2, 3] \<and>
   [1, 2, 3] = [1..<Suc (length [1, 2, 3 :: nat])]"
proof -
  have h: "store example_core = []" by (simp add: example_core_def)
  have e: "acks 1 (fst (exec example_core
     [Route True 7 1 ''hi'' 5, Route False 8 1 ''yo'' 6, Route True 8 1 ''yo'' 7,
      Route True 9 1 ''x'' 8, Route True 7 1 ''ok'' 9])) = [1, 2, 3]"
    by (simp add: example_core_def route_def append_def membersOf_def
        MAX_MESSAGE_LENGTH_def next_seq_def room_log_def subscribersOf_def)
  show ?thesis
    using h e route_sequence_numbers [OF h, of 1
      "[Route True 7 1 ''hi'' 5, Route False 8 1 ''yo'' 6, Route True 8 1 ''yo'' 7,
        Route True 9 1 ''x'' 8, Route True 7 1 ''ok'' 9]"]
    by simp
qed

text \<open>
  C3. If the store refuses the append of a route call that passed the length and
  membership checks, the call returns \<open>StoreError\<close> and the core is unchanged (so no
  read observes a sequence number of the failed send); the identical send, retried
  when the store accepts, succeeds with the next sequence number of the room.
\<close>

theorem store_failure_then_retry:
  assumes "length tx \<le> MAX_MESSAGE_LENGTH" and "u \<in> membersOf c r"
  shows "route False c u r tx ts = (Inl StoreError, c) \<and>
         fst (route True (snd (route False c u r tx ts)) u r tx ts') =
           Inr \<lparr>routed_message =
                  \<lparr>m_room = r, m_sender = u, m_content = tx, m_seq = next_seq c r,
                   m_time = ts'\<rparr>,
                fanout = subscribersOf c r, ack = next_seq c r\<rparr> \<and>
         room_log (snd (route True (snd (route False c u r tx ts)) u r tx ts')) r =
           room_log c r @
             [\<lparr>m_room = r, m_sender = u, m_content = tx, m_seq = next_seq c r, m_time = ts'\<rparr>]"
  using route_store_error[OF assms, of ts] route_accepted[OF assms, of ts']
  by (simp add: room_log_append)

theorem store_failure_then_retry_witness:
  "length ''hi'' \<le> MAX_MESSAGE_LENGTH \<and> 7 \<in> membersOf example_core 1 \<and>
   route False example_core 7 1 ''hi'' 5 = (Inl StoreError, example_core) \<and>
   fst (route True (snd (route False example_core 7 1 ''hi'' 5)) 7 1 ''hi'' 6) =
     Inr \<lparr>routed_message =
            \<lparr>m_room = 1, m_sender = 7, m_content = ''hi'', m_seq = 1, m_time = 6\<rparr>,
          fanout = {}, ack = 1\<rparr>"
proof -
  have h1: "length ''hi'' \<le> MAX_MESSAGE_LENGTH" by (simp add: MAX_MESSAGE_LENGTH_def)
  have h2: "7 \<in> membersOf example_core 1" by (simp add: membersOf_def example_core_def)
  have n: "next_seq example_core (Suc 0) = Suc 0"
    by (simp add: next_seq_def room_log_def example_core_def)
  have f: "subscribersOf example_core (Suc 0) = {}"
    by (simp add: subscribersOf_def example_core_def)
  show ?thesis
    using h1 h2 store_failure_then_retry [OF h1 h2, of 5 6]
    by (simp add: n f cong: conj_cong)
qed

text \<open>
  C4. A route call whose content is longer than \<open>MAX_MESSAGE_LENGTH\<close> (10000) fails with
  \<open>MessageTooLarge\<close>, whether or not the store would accept an append and whoever the
  sender is, and leaves the whole core (store, registry, subscriptions) unchanged.
\<close>

theorem route_message_too_large:
  assumes "MAX_MESSAGE_LENGTH < length tx"
  shows "MAX_MESSAGE_LENGTH = 10000 \<and> route accepts c u r tx ts = (Inl MessageTooLarge, c)"
  using route_too_large[OF assms] by (simp add: MAX_MESSAGE_LENGTH_def)

theorem route_message_too_large_witness:
  "MAX_MESSAGE_LENGTH < length (replicate 10001 CHR ''a'') \<and>
   route True example_core 7 1 (replicate 10001 CHR ''a'') 5 =
     (Inl MessageTooLarge, example_core)"
proof -
  have h: "MAX_MESSAGE_LENGTH < length (replicate 10001 CHR ''a'')"
    by (simp add: MAX_MESSAGE_LENGTH_def)
  show ?thesis using h route_message_too_large [OF h, of True example_core 7 1 5] by simp
qed

text \<open>
  C7. For every connection and room, a second \<open>join\<close> right after the first returns what
  the first returned and leaves the core as the first left it; when the owner of the
  connection is a member of the room both return success, and the table then holds the
  pair. \<open>leave\<close> always returns success, and a second \<open>leave\<close> right after the first
  leaves the core as the first left it.
\<close>

theorem join_leave_idempotent:
  "join (snd (join c h r)) h r = join c h r \<and>
   leave (snd (leave c h r)) h r = leave c h r \<and>
   fst (leave c h r) = Inr () \<and>
   (conn_id h, r) \<notin> subscriptions (snd (leave c h r)) \<and>
   (if owner h \<in> membersOf c r
    then fst (join c h r) = Inr () \<and>
         subscriptions (snd (join c h r)) = insert (conn_id h, r) (subscriptions c)
    else join c h r = (Inl NotAMember, c))"
  by (simp add: join_def leave_def membersOf_def)

theorem join_leave_idempotent_witness:
  "join (snd (join example_core \<lparr>conn_id = 3, owner = 7\<rparr> 1)) \<lparr>conn_id = 3, owner = 7\<rparr> 1 =
     (Inr (), example_core\<lparr>subscriptions := {(3, 1)}\<rparr>) \<and>
   join example_core \<lparr>conn_id = 3, owner = 7\<rparr> 1 =
     (Inr (), example_core\<lparr>subscriptions := {(3, 1)}\<rparr>)"
proof -
  have j: "join example_core \<lparr>conn_id = 3, owner = 7\<rparr> 1 =
     (Inr (), example_core\<lparr>subscriptions := {(3, 1)}\<rparr>)"
    by (simp add: join_def membersOf_def example_core_def)
  show ?thesis
    using j join_leave_idempotent [of example_core "\<lparr>conn_id = 3, owner = 7\<rparr>" 1] by simp
qed

section \<open>Lemmas about the client\<close>

subsection \<open>String literals\<close>

lemma char_bound: "(of_char c :: nat) < 65536"
proof -
  have "(of_char c :: nat) mod 256 < 256" by (rule mod_less_divisor) simp
  then have "(of_char c :: nat) < 256" by simp
  then show ?thesis by linarith
qed

lemma of_char_16_inj: "(of_char c :: 16 word) = of_char d \<longleftrightarrow> c = d"
proof
  assume a: "(of_char c :: 16 word) = of_char d"
  have u: "unat (of_char c :: 16 word) = of_char c" for c :: char
  proof -
    have "unat (of_nat (of_char c) :: 16 word) = of_char c"
      using char_bound[of c] by (simp add: unat_of_nat take_bit_nat_eq_self)
    then show ?thesis by (simp add: of_nat_of_char)
  qed
  from a have "unat (of_char c :: 16 word) = unat (of_char d :: 16 word)" by simp
  then have "(of_char c :: nat) = of_char d" by (simp only: u)
  then show "c = d" by simp
qed simp

lemma js_eq_iff: "js a = js b \<longleftrightarrow> a = b"
  unfolding js_def by (simp add: inj_map_eq_map inj_def of_char_16_inj)

lemma js_Nil_iff: "js a = [] \<longleftrightarrow> a = []" "[] = js a \<longleftrightarrow> a = []"
  by (auto simp: js_def)

lemma js_append: "js (a @ b) = js a @ js b" by (simp add: js_def)

subsection \<open>Functions that leave the token and the sockets alone\<close>

lemma quietI: "trace t = trace s @ ex \<Longrightarrow> list_all (\<lambda>e. \<not> is_reconnect e) ex \<Longrightarrow> quiet s t"
  by (simp add: quiet_def)

lemma quietD:
  assumes "quiet s t"
  shows "\<exists>ex. trace t = trace s @ ex \<and> list_all (\<lambda>e. \<not> is_reconnect e) ex"
proof -
  have tk: "take (length (trace s)) (trace t) = trace s"
    and dr: "list_all (\<lambda>e. \<not> is_reconnect e) (drop (length (trace s)) (trace t))"
    using assms by (simp_all add: quiet_def)
  have "take (length (trace s)) (trace t) @ drop (length (trace s)) (trace t) = trace t"
    by (rule append_take_drop_id)
  then have "trace t = trace s @ drop (length (trace s)) (trace t)"
    by (simp only: tk)
  then show ?thesis using dr by blast
qed

lemma quiet_refl: "trace t = trace s \<Longrightarrow> quiet s t"
  by (rule quietI[of _ _ "[]"]) simp_all

lemma quiet_trans:
  assumes "quiet s t" and "quiet t u"
  shows "quiet s u"
proof -
  obtain ex where 1: "trace t = trace s @ ex" "list_all (\<lambda>e. \<not> is_reconnect e) ex"
    using quietD[OF assms(1)] by blast
  obtain ex' where 2: "trace u = trace t @ ex'" "list_all (\<lambda>e. \<not> is_reconnect e) ex'"
    using quietD[OF assms(2)] by blast
  show ?thesis by (rule quietI[where ex = "ex @ ex'"]) (simp_all add: 1 2)
qed

lemma same_conn_refl: "same_conn s s"
  by (simp add: same_conn_def quiet_refl)

lemma same_conn_trans: "same_conn s t \<Longrightarrow> same_conn t u \<Longrightarrow> same_conn s u"
  unfolding same_conn_def using quiet_trans by auto

lemma same_connI:
  "token t = token s \<Longrightarrow> socket t = socket s \<Longrightarrow> sockets t = sockets s \<Longrightarrow>
   trace t = trace s @ ex \<Longrightarrow> list_all (\<lambda>e. \<not> is_reconnect e) ex \<Longrightarrow> same_conn s t"
  unfolding same_conn_def using quietI by blast

lemma same_conn_showToast: "same_conn s (showToast m k s)"
  by (rule same_connI[where ex = "[SetTimeout (RemoveToast \<lparr>toast_text = m, toast_kind = k\<rparr>) 3000]"])
     (simp_all add: showToast_def Let_def)

lemma same_conn_appendMessage: "same_conn s (appendMessage m b s)"
  by (rule same_connI[where ex = "[]"]) (simp_all add: appendMessage_def)

lemma same_conn_ws_send: "same_conn s (ws_send i f s)"
  by (rule same_connI[where ex = "[Send i f]"]) (simp_all add: ws_send_def)

lemma same_conn_loadChats: "same_conn s (loadChats s)"
  by (rule same_connI[where ex = "[Fetch (apiCall_request (token s) (js ''/api/chats/private'') (js ''GET'') None False)]"])
     (simp_all add: loadChats_def)

lemma renderChatList_eq:
  "renderChatList s = (fst (render_items (activeChat s) (privateChats s) []),
                       s\<lparr>chat_list := snd (render_items (activeChat s) (privateChats s) [])\<rparr>)"
  by (simp add: renderChatList_def split: prod.splits)

lemma same_conn_renderChatList: "same_conn s (snd (renderChatList s))"
  by (rule same_connI[where ex = "[]"]) (simp_all add: renderChatList_eq)

lemma same_conn_input: "same_conn s (s\<lparr>message_input := v\<rparr>)"
  by (rule same_connI[where ex = "[]"]) simp_all

lemma same_conn_privateChats: "same_conn s (s\<lparr>privateChats := v\<rparr>)"
  by (rule same_connI[where ex = "[]"]) simp_all

lemma same_conn_toasts: "same_conn s (s\<lparr>toasts := v\<rparr>)"
  by (rule same_connI[where ex = "[]"]) simp_all

lemma same_conn_timers: "same_conn s (s\<lparr>timers := v\<rparr>)"
  by (rule same_connI[where ex = "[]"]) simp_all

lemma same_conn_open_fields:
  "same_conn s (s\<lparr>activeChat := a, chat_title := ti, messages_area := []\<rparr>)"
  by (rule same_connI[where ex = "[]"]) simp_all

lemma same_conn_fetch: "same_conn s (s\<lparr>trace := trace s @ [Fetch r]\<rparr>)"
  by (rule same_connI[where ex = "[Fetch r]"]) simp_all

text \<open>\<open>openChat\<close>, written as a composition.\<close>

lemma openChat_eq:
  "openChat c ty ti s =
     (let s1 = s\<lparr>activeChat := Some \<lparr>ac_id = c, ac_type = ty\<rparr>, chat_title := ti, messages_area := []\<rparr>;
          s2 = snd (renderChatList s1)
      in case fst (renderChatList s1) of
           Throw e \<Rightarrow> (Throw e, s2)
         | Normal \<Rightarrow>
             (let s3 = (case open_socket s2 of None \<Rightarrow> s2 | Some i \<Rightarrow> ws_send i (join_frame c ty) s2)
              in (Normal, s3\<lparr>trace := trace s3 @ [Fetch (apiCall_request (token s3) (history_endpoint c ty) (js ''GET'') None False)]\<rparr>)))"
proof -
  obtain r s2 where e: "renderChatList (s\<lparr>activeChat := Some \<lparr>ac_id = c, ac_type = ty\<rparr>, chat_title := ti, messages_area := []\<rparr>) = (r, s2)"
    by (cases "renderChatList (s\<lparr>activeChat := Some \<lparr>ac_id = c, ac_type = ty\<rparr>, chat_title := ti, messages_area := []\<rparr>)")
  show ?thesis
    unfolding openChat_def Let_def e by (cases r) (simp_all split: option.splits)
qed

lemma same_conn_openChat: "same_conn s (snd (openChat c ty ti s))"
proof -
  let ?s1 = "s\<lparr>activeChat := Some \<lparr>ac_id = c, ac_type = ty\<rparr>, chat_title := ti, messages_area := []\<rparr>"
  let ?s2 = "snd (renderChatList ?s1)"
  let ?s3 = "(case open_socket ?s2 of None \<Rightarrow> ?s2 | Some i \<Rightarrow> ws_send i (join_frame c ty) ?s2)"
  have 1: "same_conn s ?s1" by (rule same_conn_open_fields)
  have 2: "same_conn ?s1 ?s2" by (rule same_conn_renderChatList)
  have 3: "same_conn ?s2 ?s3" by (cases "open_socket ?s2") (simp_all add: same_conn_refl same_conn_ws_send)
  have 4: "same_conn ?s3 (?s3\<lparr>trace := trace ?s3 @ [Fetch r]\<rparr>)" for r by (rule same_conn_fetch)
  have 12: "same_conn s ?s2" using 1 2 by (rule same_conn_trans)
  have 123: "same_conn s ?s3" using 12 3 by (rule same_conn_trans)
  have 1234: "same_conn s (?s3\<lparr>trace := trace ?s3 @ [Fetch r]\<rparr>)" for r using 123 4 by (rule same_conn_trans)
  show ?thesis
    unfolding openChat_eq Let_def
    by (cases "fst (renderChatList ?s1)") (simp_all only: completion.case snd_conv 12 1234)
qed


lemma same_conn_append_history: "same_conn s (append_history ms s)"
proof (induction ms arbitrary: s)
  case Nil
  show ?case by (simp add: same_conn_refl)
next
  case (Cons m ms)
  show ?case
  proof (cases "user s")
    case None
    then show ?thesis by (simp add: same_conn_refl)
  next
    case (Some u)
    have "same_conn s (appendMessage m (sender_id m = user_id u) s)"
      by (rule same_conn_appendMessage)
    from same_conn_trans[OF this Cons.IH] show ?thesis using Some by simp
  qed
qed

lemma same_conn_openChat_resume: "same_conn s (openChat_resume res s)"
  by (cases res) (simp_all add: openChat_resume_def same_conn_refl same_conn_append_history)

lemma same_conn_new_message_toast: "same_conn s (snd (new_message_toast p s))"
  by (cases "as_message p") (simp_all add: new_message_toast_def same_conn_refl same_conn_showToast)

lemma handleWsMessage_cases:
  "snd (handleWsMessage d s) = s \<or>
   (\<exists>m b. snd (handleWsMessage d s) = appendMessage m b s) \<or>
   snd (handleWsMessage d s) = snd (new_message_toast (data_message d) s) \<or>
   (\<exists>m k. snd (handleWsMessage d s) = showToast m k s)"
  unfolding handleWsMessage_def Let_def
  by (auto split: option.splits)

lemma same_conn_handleWsMessage: "same_conn s (snd (handleWsMessage d s))"
  using handleWsMessage_cases[of d s]
  by (auto simp: same_conn_refl same_conn_appendMessage same_conn_new_message_toast same_conn_showToast)

lemma sendMessage_sent:
  assumes "activeChat s = Some ac" "trim (message_input s) \<noteq> []" "open_socket s = Some i"
    "user s = Some u"
  shows "sendMessage now s =
     (Normal, s\<lparr>messages_area := messages_area s @
                  [\<lparr>sent = True, bubble_html = escapeHtml (Str (trim (message_input s))),
                    meta_time = Str now\<rparr>],
                trace := trace s @ [Send i (message_frame ac (trim (message_input s)))],
                message_input := []\<rparr>)"
  using assms by (simp add: sendMessage_def Let_def appendMessage_def ws_send_def)

lemma sendMessage_cases:
  "snd (sendMessage now s) = s \<or>
   snd (sendMessage now s) = showToast (js ''Connection lost'') (js ''error'') s \<or>
   (\<exists>m f i. snd (sendMessage now s) = (ws_send i f (appendMessage m True s))\<lparr>message_input := []\<rparr>)"
  unfolding sendMessage_def Let_def
  by (auto split: option.splits)

lemma same_conn_sendMessage: "same_conn s (snd (sendMessage now s))"
proof -
  have "same_conn s ((ws_send i f (appendMessage m True s))\<lparr>message_input := []\<rparr>)" for i f m
    using same_conn_trans[OF same_conn_trans[OF same_conn_appendMessage same_conn_ws_send] same_conn_input]
    by blast
  then show ?thesis
    using sendMessage_cases[of now s] by (auto simp: same_conn_refl same_conn_showToast)
qed

lemma same_conn_socket_onopen: "same_conn s (socket_onopen s)"
  by (cases "activeChat s") (simp_all add: socket_onopen_def same_conn_refl same_conn_openChat)

lemma same_conn_socket_onmessage: "same_conn s (socket_onmessage d s)"
  by (cases d) (simp_all add: socket_onmessage_def same_conn_refl same_conn_handleWsMessage)

lemma same_conn_loadChats_resume: "same_conn s (loadChats_resume res s)"
proof (cases res)
  case None
  then show ?thesis by (simp add: loadChats_resume_def same_conn_refl)
next
  case (Some chats)
  from same_conn_trans[OF same_conn_privateChats same_conn_renderChatList]
  show ?thesis using Some by (simp add: loadChats_resume_def)
qed

lemma same_conn_loadInitialData: "same_conn s (snd (loadInitialData s))"
  by (cases "user s") (simp_all add: loadInitialData_def same_conn_refl same_conn_loadChats)

subsection \<open>The invariant of the sockets\<close>

lemma conn_inv_cong: "socket t = socket s \<Longrightarrow> sockets t = sockets s \<Longrightarrow> conn_inv s \<Longrightarrow> conn_inv t"
  by (simp add: conn_inv_def)

lemma conn_inv_same: "same_conn s t \<Longrightarrow> conn_inv s \<Longrightarrow> conn_inv t"
  by (simp add: same_conn_def conn_inv_cong)

lemma detach_fields:
  "token (detach s) = token s" "socket (detach s) = socket s" "user (detach s) = user s"
  "messages_area (detach s) = messages_area s" "timers (detach s) = timers s"
  "length (sockets (detach s)) = length (sockets s)"
  by (simp_all add: detach_def ws_close_def update_socket_def split: option.splits)

lemma detach_quiet: "quiet s (detach s)"
proof (cases "socket s")
  case None
  then show ?thesis by (simp add: detach_def quiet_refl)
next
  case (Some i)
  show ?thesis
    by (rule quietI[where ex = "[Close i]"]) (simp_all add: detach_def Some ws_close_def update_socket_def)
qed

lemma detach_all_dead:
  assumes "conn_inv s"
  shows "list_all dead (sockets (detach s))"
proof (cases "socket s")
  case None
  then show ?thesis using assms
    by (auto simp: detach_def conn_inv_def list_all_length dead_def)
next
  case (Some i)
  then have i: "i < length (sockets s)" using assms by (simp add: conn_inv_def)
  have others: "\<And>j. j < length (sockets s) \<Longrightarrow> j \<noteq> i \<Longrightarrow> dead (sockets s ! j)"
    using assms Some by (auto simp: conn_inv_def dead_def)
  have "dead (sockets (detach s) ! j)" if "j < length (sockets s)" for j
  proof (cases "j = i")
    case True
    then show ?thesis using i Some
      by (cases "readyState (sockets s ! i)")
         (simp_all add: detach_def ws_close_def update_socket_def dead_def)
  next
    case False
    then show ?thesis using i Some others[OF that False]
      by (simp add: detach_def ws_close_def update_socket_def)
  qed
  then show ?thesis by (simp add: list_all_length detach_fields)
qed

lemma all_dead_conn_inv:
  "list_all dead (sockets t) \<Longrightarrow> (\<forall>i. socket t = Some i \<longrightarrow> i < length (sockets t)) \<Longrightarrow> conn_inv t"
  by (auto simp: conn_inv_def list_all_length dead_def)

lemma conn_inv_detach: "conn_inv s \<Longrightarrow> conn_inv (detach s)"
  by (rule all_dead_conn_inv) (simp_all add: detach_all_dead detach_fields conn_inv_def)

lemma conn_inv_new_socket:
  assumes "list_all dead (sockets t)"
  shows "conn_inv (t\<lparr>sockets := sockets t @ [\<lparr>ws_token = k, readyState = CONNECTING, has_onclose = True\<rparr>],
                    socket := Some (length (sockets t)), trace := tr\<rparr>)"
  using assms by (auto simp: conn_inv_def list_all_length dead_def nth_append)

lemma connectWebSocket_eq:
  "connectWebSocket s =
     (if \<not> truthy (token s) \<or> token s = Str (js ''null'') \<or> token s = Str (js ''undefined'')
      then (Normal, s)
      else if \<not> well_formed (to_string (token s)) then (Throw URIError, detach s)
      else (Normal,
            (detach s)\<lparr>sockets := sockets (detach s) @
                          [\<lparr>ws_token = to_string (token s), readyState = CONNECTING, has_onclose = True\<rparr>],
                       socket := Some (length (sockets (detach s))),
                       trace := trace (detach s) @ [NewWebSocket (length (sockets (detach s))) (to_string (token s))]\<rparr>))"
  by (simp add: connectWebSocket_def Let_def detach_def[symmetric] detach_fields)

lemma handleLogout_eq:
  "handleLogout s = (detach (s\<lparr>token := Null, user := None\<rparr>))\<lparr>socket := None\<rparr>"
  by (cases "socket s") (simp_all add: handleLogout_def Let_def detach_def)

lemma conn_inv_connectWebSocket: "conn_inv s \<Longrightarrow> conn_inv (snd (connectWebSocket s))"
  by (simp add: connectWebSocket_eq conn_inv_detach conn_inv_new_socket detach_all_dead)

lemma conn_inv_handleLogout: "conn_inv s \<Longrightarrow> conn_inv (handleLogout s)"
proof -
  assume a: "conn_inv s"
  have "conn_inv (s\<lparr>token := Null, user := None\<rparr>)" using a by (simp add: conn_inv_def)
  from detach_all_dead[OF this] show ?thesis
    unfolding handleLogout_eq by (intro all_dead_conn_inv) simp_all
qed

lemma handleLogin_resume_eq:
  "handleLogin_resume g tok usr s =
     (let s1 = showToast g (js ''success'') (s\<lparr>token := tok, user := usr\<rparr>)
      in if fst (connectWebSocket s1) = Normal then snd (loadInitialData (snd (connectWebSocket s1)))
         else showToast (js ''URI malformed'') (js ''error'') (snd (connectWebSocket s1)))"
proof -
  obtain r s2 where e: "connectWebSocket (showToast g (js ''success'') (s\<lparr>token := tok, user := usr\<rparr>)) = (r, s2)"
    by (cases "connectWebSocket (showToast g (js ''success'') (s\<lparr>token := tok, user := usr\<rparr>))")
  show ?thesis unfolding handleLogin_resume_def Let_def e by (cases r) simp_all
qed

lemma init_eq:
  "init tok usr =
     (if truthy tok then
        (if fst (connectWebSocket (blank tok usr)) = Normal
         then snd (loadInitialData (snd (connectWebSocket (blank tok usr))))
         else snd (connectWebSocket (blank tok usr)))
      else blank tok usr)"
proof -
  obtain r s2 where e: "connectWebSocket (blank tok usr) = (r, s2)"
    by (cases "connectWebSocket (blank tok usr)")
  show ?thesis unfolding init_def e by (cases r) simp_all
qed

lemma conn_inv_blank: "conn_inv (blank tok usr)"
  by (simp add: conn_inv_def blank_def)

lemma conn_inv_init: "conn_inv (init tok usr)"
  unfolding init_eq
  using conn_inv_connectWebSocket[OF conn_inv_blank, of tok usr]
        conn_inv_same[OF same_conn_loadInitialData]
  by (simp add: conn_inv_blank)

lemma conn_inv_handleLogin_resume: "conn_inv s \<Longrightarrow> conn_inv (handleLogin_resume g tok usr s)"
proof -
  assume a: "conn_inv s"
  let ?s1 = "showToast g (js ''success'') (s\<lparr>token := tok, user := usr\<rparr>)"
  have "conn_inv (s\<lparr>token := tok, user := usr\<rparr>)" using a by (simp add: conn_inv_def)
  then have "conn_inv ?s1" by (rule conn_inv_same[OF same_conn_showToast])
  then have c: "conn_inv (snd (connectWebSocket ?s1))" by (rule conn_inv_connectWebSocket)
  show ?thesis
    unfolding handleLogin_resume_eq Let_def
    using conn_inv_same[OF same_conn_loadInitialData c] conn_inv_same[OF same_conn_showToast c]
    by simp
qed

lemma socket_onclose_fields:
  "socket (socket_onclose s) = socket s" "sockets (socket_onclose s) = sockets s"
  "token (socket_onclose s) = token s" "messages_area (socket_onclose s) = messages_area s"
  by (simp_all add: socket_onclose_def)

lemma update_socket_fields:
  "socket (update_socket i f s) = socket s" "token (update_socket i f s) = token s"
  "trace (update_socket i f s) = trace s" "messages_area (update_socket i f s) = messages_area s"
  "activeChat (update_socket i f s) = activeChat s" "timers (update_socket i f s) = timers s"
  "privateChats (update_socket i f s) = privateChats s" "chat_title (update_socket i f s) = chat_title s"
  "length (sockets (update_socket i f s)) = length (sockets s)"
  by (simp_all add: update_socket_def)

lemma conn_inv_opened:
  assumes "conn_inv s" "ready s i = Some CONNECTING"
  shows "socket s = Some i" "conn_inv (update_socket i (\<lambda>w. w\<lparr>readyState := OPEN\<rparr>) s)"
proof -
  from assms(2) have i: "i < length (sockets s)" "readyState (sockets s ! i) = CONNECTING"
    by (auto simp: ready_def split: if_splits)
  show cur: "socket s = Some i"
  proof (rule ccontr)
    assume "socket s \<noteq> Some i"
    with assms(1) i show False by (auto simp: conn_inv_def)
  qed
  have h: "has_onclose (sockets s ! i)" using assms(1) cur i by (auto simp: conn_inv_def)
  show "conn_inv (update_socket i (\<lambda>w. w\<lparr>readyState := OPEN\<rparr>) s)"
    using assms(1) i cur h
    by (auto simp: conn_inv_def update_socket_def nth_list_update)
qed

lemma conn_inv_closed:
  assumes "conn_inv s"
  shows "conn_inv (update_socket i (\<lambda>w. w\<lparr>readyState := CLOSED\<rparr>) s)"
  using assms by (auto simp: conn_inv_def update_socket_def nth_list_update)

lemma conn_inv_fire: "conn_inv s \<Longrightarrow> conn_inv (fire cb s)"
  by (cases cb) (simp_all add: fire_def conn_inv_connectWebSocket conn_inv_cong[of _ s])

lemma conn_inv_step: "conn_inv s \<Longrightarrow> conn_inv (step s e)"
proof (cases e)
  case (LoggedIn g tok usr)
  assume "conn_inv s" then show ?thesis using LoggedIn by (simp add: conn_inv_handleLogin_resume)
next
  case Logout
  assume "conn_inv s" then show ?thesis using Logout by (simp add: conn_inv_handleLogout)
next
  case (SocketOpened i)
  assume a: "conn_inv s"
  show ?thesis using SocketOpened a conn_inv_opened(2)[OF a]
    by (auto intro: conn_inv_same[OF same_conn_socket_onopen])
next
  case (SocketMessage i d)
  assume a: "conn_inv s"
  show ?thesis using SocketMessage a by (auto intro: conn_inv_same[OF same_conn_socket_onmessage])
next
  case (SocketClosed i)
  assume a: "conn_inv s"
  have "conn_inv (socket_onclose t)" if "conn_inv t" for t
    using that by (rule conn_inv_cong[rotated 2]) (simp_all add: socket_onclose_fields)
  then show ?thesis using SocketClosed a conn_inv_closed[OF a, of i] by (simp add: Let_def)
next
  case (TimerFired k)
  assume a: "conn_inv s"
  have "conn_inv (s\<lparr>timers := v\<rparr>)" for v using a by (simp add: conn_inv_def)
  then show ?thesis using TimerFired a by (simp add: conn_inv_fire)
next
  case (Submit now)
  assume a: "conn_inv s"
  show ?thesis using Submit conn_inv_same[OF same_conn_sendMessage a] by simp
next
  case (Input v)
  assume a: "conn_inv s"
  show ?thesis using Input a by (simp add: conn_inv_def)
next
  case (OpenChat c ty ti)
  assume a: "conn_inv s"
  show ?thesis using OpenChat conn_inv_same[OF same_conn_openChat a] by simp
next
  case (HistoryLoaded res)
  assume a: "conn_inv s"
  show ?thesis using HistoryLoaded conn_inv_same[OF same_conn_openChat_resume a] by simp
next
  case LoadChats
  assume a: "conn_inv s"
  show ?thesis using LoadChats conn_inv_same[OF same_conn_loadChats a] by simp
next
  case (ChatsLoaded res)
  assume a: "conn_inv s"
  show ?thesis using ChatsLoaded conn_inv_same[OF same_conn_loadChats_resume a] by simp
next
  case (Toast m k)
  assume a: "conn_inv s"
  show ?thesis using Toast conn_inv_same[OF same_conn_showToast a] by simp
qed

lemma conn_inv_run: "conn_inv s \<Longrightarrow> conn_inv (run s es)"
  unfolding run_def by (induction es arbitrary: s) (simp_all add: conn_inv_step)

lemma conn_inv_reachable: "conn_inv (run (init tok usr) es)"
  by (rule conn_inv_run) (rule conn_inv_init)

subsection \<open>After a logout\<close>

lemma logged_out_same: "same_conn s t \<Longrightarrow> logged_out s \<Longrightarrow> logged_out t \<and> quiet s t"
  by (simp add: same_conn_def logged_out_def)

lemma detach_no_handlers:
  assumes "list_all (\<lambda>w. \<not> has_onclose w) (sockets s)"
  shows "list_all (\<lambda>w. \<not> has_onclose w) (sockets (detach s))"
proof (cases "socket s")
  case None
  then show ?thesis using assms by (simp add: detach_def)
next
  case (Some i)
  then show ?thesis using assms
    by (auto simp: detach_def ws_close_def update_socket_def list_all_length nth_list_update)
qed

lemma logged_out_handleLogout_again: "logged_out s \<Longrightarrow> logged_out (handleLogout s) \<and> quiet s (handleLogout s)"
proof -
  assume a: "logged_out s"
  let ?s0 = "s\<lparr>token := Null, user := None\<rparr>"
  have n: "list_all (\<lambda>w. \<not> has_onclose w) (sockets ?s0)" using a by (simp add: logged_out_def)
  have q0: "quiet s ?s0" by (rule quiet_refl) simp
  have q1: "quiet ?s0 (detach ?s0)" by (rule detach_quiet)
  have q2: "quiet (detach ?s0) ((detach ?s0)\<lparr>socket := None\<rparr>)" by (rule quiet_refl) simp
  have "quiet s (handleLogout s)"
    unfolding handleLogout_eq using quiet_trans[OF quiet_trans[OF q0 q1] q2] .
  moreover have "logged_out (handleLogout s)"
    unfolding handleLogout_eq using detach_no_handlers[OF n]
    by (simp add: logged_out_def detach_fields)
  ultimately show ?thesis by simp
qed

lemma logged_out_handleLogout: "conn_inv s \<Longrightarrow> logged_out (handleLogout s)"
proof -
  assume a: "conn_inv s"
  have "conn_inv (s\<lparr>token := Null, user := None\<rparr>)" using a by (simp add: conn_inv_def)
  from detach_all_dead[OF this]
  have "list_all (\<lambda>w. \<not> has_onclose w) (sockets (detach (s\<lparr>token := Null, user := None\<rparr>)))"
    by (auto simp: list_all_length dead_def)
  then show ?thesis unfolding handleLogout_eq by (simp add: logged_out_def detach_fields)
qed

lemma handleLogout_fields:
  "token (handleLogout s) = Null" "user (handleLogout s) = None" "socket (handleLogout s) = None"
  "length (sockets (handleLogout s)) = length (sockets s)"
  unfolding handleLogout_eq by (simp_all add: detach_fields)

lemma logged_out_readyState:
  assumes "logged_out s"
  shows "logged_out (update_socket i (\<lambda>w. w\<lparr>readyState := r\<rparr>) s) \<and>
         quiet s (update_socket i (\<lambda>w. w\<lparr>readyState := r\<rparr>) s)"
proof -
  have "list_all (\<lambda>w. \<not> has_onclose w) (sockets (update_socket i (\<lambda>w. w\<lparr>readyState := r\<rparr>) s))"
    using assms by (auto simp: logged_out_def update_socket_def list_all_length nth_list_update)
  then show ?thesis using assms
    by (simp add: logged_out_def update_socket_fields quiet_refl)
qed

lemma logged_out_trans:
  "logged_out t \<and> quiet s t \<Longrightarrow> (logged_out t \<Longrightarrow> logged_out u \<and> quiet t u) \<Longrightarrow> logged_out u \<and> quiet s u"
  using quiet_trans by blast

lemma logged_out_connect: "logged_out s \<Longrightarrow> connectWebSocket s = (Normal, s)"
  by (simp add: connectWebSocket_def logged_out_def)

lemma logged_out_step:
  assumes a: "logged_out s" and nl: "\<not> is_login e"
  shows "logged_out (step s e) \<and> quiet s (step s e) \<and> length (sockets (step s e)) = length (sockets s)"
proof -
  have len: "length (sockets (step s e)) = length (sockets s)"
  proof (cases e)
    case (LoggedIn g t u) then show ?thesis using nl by simp
  next
    case Logout then show ?thesis by (simp add: handleLogout_fields)
  next
    case (SocketOpened i)
    then show ?thesis using same_conn_socket_onopen[of "update_socket i (\<lambda>w. w\<lparr>readyState := OPEN\<rparr>) s"]
      by (simp add: same_conn_def update_socket_fields)
  next
    case (SocketMessage i d)
    then show ?thesis using same_conn_socket_onmessage[of s d] by (simp add: same_conn_def)
  next
    case (SocketClosed i)
    then show ?thesis by (simp add: Let_def socket_onclose_fields update_socket_fields)
  next
    case (TimerFired k)
    have "length (sockets (fire cb t)) = length (sockets t)" if "logged_out t" for cb t
      using that by (cases cb) (simp_all add: fire_def logged_out_connect)
    moreover have "logged_out (s\<lparr>timers := v\<rparr>)" for v using a by (simp add: logged_out_def)
    ultimately show ?thesis using TimerFired by simp
  next
    case (Submit now) then show ?thesis using same_conn_sendMessage[of s now] by (simp add: same_conn_def)
  next
    case (Input v) then show ?thesis by simp
  next
    case (OpenChat c ty ti) then show ?thesis using same_conn_openChat[of s c ty ti] by (simp add: same_conn_def)
  next
    case (HistoryLoaded res) then show ?thesis using same_conn_openChat_resume[of s res] by (simp add: same_conn_def)
  next
    case LoadChats then show ?thesis using same_conn_loadChats[of s] by (simp add: same_conn_def)
  next
    case (ChatsLoaded res) then show ?thesis using same_conn_loadChats_resume[of s res] by (simp add: same_conn_def)
  next
    case (Toast m k) then show ?thesis using same_conn_showToast[of s m k] by (simp add: same_conn_def)
  qed
  have "logged_out (step s e) \<and> quiet s (step s e)"
  proof (cases e)
    case (LoggedIn g t u) then show ?thesis using nl by simp
  next
    case Logout then show ?thesis using logged_out_handleLogout_again[OF a] by simp
  next
    case (SocketOpened i)
    show ?thesis
    proof (cases "ready s i = Some CONNECTING")
      case True
      from logged_out_trans[OF logged_out_readyState[OF a, of i OPEN] logged_out_same[OF same_conn_socket_onopen]]
      show ?thesis using SocketOpened True by simp
    next
      case False
      then show ?thesis using SocketOpened a by (simp add: quiet_refl)
    qed
  next
    case (SocketMessage i d)
    then show ?thesis using logged_out_same[OF same_conn_socket_onmessage a, of d] a by (simp add: quiet_refl)
  next
    case (SocketClosed i)
    show ?thesis
    proof (cases "i < length (sockets s) \<and> readyState (sockets s ! i) \<noteq> CLOSED")
      case True
      then have "\<not> has_onclose (sockets s ! i)" using a by (simp add: logged_out_def list_all_length)
      then show ?thesis using SocketClosed True logged_out_readyState[OF a, of i CLOSED] by (simp add: Let_def)
    next
      case False
      then show ?thesis using SocketClosed a by (auto simp: quiet_refl)
    qed
  next
    case (TimerFired k)
    have t: "logged_out (s\<lparr>timers := v\<rparr>) \<and> quiet s (s\<lparr>timers := v\<rparr>)" for v
      using a by (simp add: logged_out_def quiet_refl)
    have f: "logged_out (fire cb t) \<and> quiet t (fire cb t)" if "logged_out t" for cb t
    proof (cases cb)
      case ConnectWebSocket
      then show ?thesis using that by (simp add: fire_def logged_out_connect quiet_refl)
    next
      case (RemoveToast x)
      then show ?thesis using logged_out_same[OF same_conn_toasts that] by (simp add: fire_def)
    qed
    show ?thesis
    proof (cases "k < length (timers s)")
      case True
      from logged_out_trans[OF t f] show ?thesis using TimerFired True by simp
    next
      case False
      then show ?thesis using TimerFired a by (simp add: quiet_refl)
    qed
  next
    case (Submit now) then show ?thesis using logged_out_same[OF same_conn_sendMessage a] by simp
  next
    case (Input v) then show ?thesis using logged_out_same[OF same_conn_input a] by simp
  next
    case (OpenChat c ty ti) then show ?thesis using logged_out_same[OF same_conn_openChat a] by simp
  next
    case (HistoryLoaded res) then show ?thesis using logged_out_same[OF same_conn_openChat_resume a] by simp
  next
    case LoadChats then show ?thesis using logged_out_same[OF same_conn_loadChats a] by simp
  next
    case (ChatsLoaded res) then show ?thesis using logged_out_same[OF same_conn_loadChats_resume a] by simp
  next
    case (Toast m k) then show ?thesis using logged_out_same[OF same_conn_showToast a] by simp
  qed
  with len show ?thesis by simp
qed

lemma logged_out_run:
  "logged_out s \<Longrightarrow> list_all (\<lambda>e. \<not> is_login e) es \<Longrightarrow>
   logged_out (run s es) \<and> quiet s (run s es) \<and> length (sockets (run s es)) = length (sockets s)"
proof (induction es arbitrary: s)
  case Nil
  then show ?case by (simp add: run_def quiet_refl)
next
  case (Cons e es)
  from Cons.prems have nl: "\<not> is_login e" and rest: "list_all (\<lambda>e. \<not> is_login e) es" by simp_all
  note st = logged_out_step[OF Cons.prems(1) nl]
  from Cons.IH[OF conjunct1[OF st] rest] st
  show ?case using quiet_trans[of s "step s e" "run (step s e) es"] by (simp add: run_def)
qed

lemma close_schedules:
  assumes inv: "conn_inv s" and cur: "socket s = Some i"
    and live: "ready s i = Some CONNECTING \<or> ready s i = Some OPEN" and tok: "truthy (token s)"
  shows "trace (step s (SocketClosed i)) = trace s @ [SetTimeout ConnectWebSocket 3000]"
    "timers (step s (SocketClosed i)) = timers s @ [(ConnectWebSocket, 3000)]"
    "ready (step s (SocketClosed i)) i = Some CLOSED"
proof -
  from live have i: "i < length (sockets s)"
    and r: "readyState (sockets s ! i) = CONNECTING \<or> readyState (sockets s ! i) = OPEN"
    by (auto simp: ready_def split: if_splits)
  have h: "has_onclose (sockets s ! i)" using inv cur i r by (auto simp: conn_inv_def)
  have ne: "readyState (sockets s ! i) \<noteq> CLOSED" using r by auto
  show "trace (step s (SocketClosed i)) = trace s @ [SetTimeout ConnectWebSocket 3000]"
    using i h ne tok by (simp add: Let_def socket_onclose_def update_socket_fields)
  show "timers (step s (SocketClosed i)) = timers s @ [(ConnectWebSocket, 3000)]"
    using i h ne tok by (simp add: Let_def socket_onclose_def update_socket_fields)
  show "ready (step s (SocketClosed i)) i = Some CLOSED"
    using i h ne tok by (simp add: Let_def socket_onclose_def update_socket_def ready_def)
qed

subsection \<open>Opening a socket while a chat is active\<close>






subsection \<open>The message area\<close>

lemma area_clean_cong: "messages_area t = messages_area s \<Longrightarrow> area_clean s \<Longrightarrow> area_clean t"
  by (simp add: area_clean_def)

lemma escape_unit_clean: "0x3C \<notin> set (escape_unit c) \<and> 0x3E \<notin> set (escape_unit c)"
  by (simp add: escape_unit_def js_def)

lemma innerHTML_clean: "0x3C \<notin> set (innerHTML_of_text s) \<and> 0x3E \<notin> set (innerHTML_of_text s)"
  using escape_unit_clean by (auto simp: innerHTML_of_text_def)

lemma escapeHtml_clean: "0x3C \<notin> set (escapeHtml v) \<and> 0x3E \<notin> set (escapeHtml v)"
  using innerHTML_clean by (cases v) auto

lemma innerHTML_append: "innerHTML_of_text (a @ b) = innerHTML_of_text a @ innerHTML_of_text b"
  by (simp add: innerHTML_of_text_def)

lemma escapeHtml_Str: "escapeHtml (Str s) = innerHTML_of_text s"
  by (simp add: innerHTML_of_text_def)

lemma area_appendMessage: "area_clean s \<Longrightarrow> area_clean (appendMessage m b s)"
  using escapeHtml_clean by (simp add: area_clean_def appendMessage_def)

lemma area_fields:
  "messages_area (showToast m k s) = messages_area s"
  "messages_area (ws_send i f s) = messages_area s"
  "messages_area (loadChats s) = messages_area s"
  "messages_area (snd (renderChatList s)) = messages_area s"
  by (simp_all add: showToast_def Let_def ws_send_def loadChats_def renderChatList_eq)

lemma area_connectWebSocket: "messages_area (snd (connectWebSocket s)) = messages_area s"
  by (simp add: connectWebSocket_eq detach_fields)

lemma area_handleLogout: "messages_area (handleLogout s) = messages_area s"
  by (simp add: handleLogout_eq detach_fields)

lemma area_loadInitialData: "messages_area (snd (loadInitialData s)) = messages_area s"
  by (cases "user s") (simp_all add: loadInitialData_def area_fields)

lemma area_handleLogin_resume: "messages_area (handleLogin_resume g tok usr s) = messages_area s"
  unfolding handleLogin_resume_eq Let_def
  by (simp add: area_loadInitialData area_connectWebSocket area_fields)

lemma area_loadChats_resume: "messages_area (loadChats_resume res s) = messages_area s"
  by (cases res) (simp_all add: loadChats_resume_def area_fields)

lemma area_new_message_toast: "messages_area (snd (new_message_toast p s)) = messages_area s"
  by (cases "as_message p") (simp_all add: new_message_toast_def area_fields)

lemma area_fire: "messages_area (fire cb s) = messages_area s"
  by (cases cb) (simp_all add: fire_def area_connectWebSocket)

lemma area_openChat: "messages_area (snd (openChat c ty ti s)) = []"
  unfolding openChat_eq Let_def
  by (cases "fst (renderChatList (s\<lparr>activeChat := Some \<lparr>ac_id = c, ac_type = ty\<rparr>, chat_title := ti, messages_area := []\<rparr>))")
     (simp_all add: area_fields split: option.splits)

lemma area_append_history: "area_clean s \<Longrightarrow> area_clean (append_history ms s)"
  by (induction ms arbitrary: s) (simp_all add: area_appendMessage split: option.splits)

lemma area_sendMessage: "area_clean s \<Longrightarrow> area_clean (snd (sendMessage now s))"
proof -
  assume a: "area_clean s"
  have "area_clean ((ws_send i f (appendMessage m True s))\<lparr>message_input := []\<rparr>)" for i f m
    by (rule area_clean_cong[OF _ area_appendMessage[OF a, of m True]]) (simp add: area_fields)
  moreover have "area_clean (showToast m k s)" for m k
    by (rule area_clean_cong[OF _ a]) (simp add: area_fields)
  ultimately show ?thesis using sendMessage_cases[of now s] a by auto
qed

lemma area_handleWsMessage: "area_clean s \<Longrightarrow> area_clean (snd (handleWsMessage d s))"
proof -
  assume a: "area_clean s"
  have "area_clean (showToast m k s)" for m k
    by (rule area_clean_cong[OF _ a]) (simp add: area_fields)
  moreover have "area_clean (snd (new_message_toast p s))" for p
    by (rule area_clean_cong[OF _ a]) (simp add: area_new_message_toast)
  ultimately show ?thesis using handleWsMessage_cases[of d s] a by (auto simp: area_appendMessage)
qed

lemma area_step: "area_clean s \<Longrightarrow> area_clean (step s e)"
proof (cases e)
  case (LoggedIn g t u)
  assume "area_clean s" then show ?thesis using LoggedIn
    by (simp add: area_clean_cong[OF area_handleLogin_resume])
next
  case Logout
  assume "area_clean s" then show ?thesis using Logout by (simp add: area_clean_cong[OF area_handleLogout])
next
  case (SocketOpened i)
  assume a: "area_clean s"
  have "area_clean (socket_onopen t)" if "area_clean t" for t
    using that by (cases "activeChat t") (simp_all add: socket_onopen_def area_clean_def area_openChat)
  moreover have "area_clean (update_socket i f s)" for f
    by (rule area_clean_cong[OF _ a]) (simp add: update_socket_fields)
  ultimately show ?thesis using SocketOpened a by simp
next
  case (SocketMessage i d)
  assume a: "area_clean s"
  then show ?thesis using SocketMessage
    by (cases d) (simp_all add: socket_onmessage_def area_handleWsMessage)
next
  case (SocketClosed i)
  assume a: "area_clean s"
  show ?thesis using SocketClosed a
    by (auto simp: Let_def intro!: area_clean_cong[OF _ a] simp: socket_onclose_fields update_socket_fields)
next
  case (TimerFired k)
  assume a: "area_clean s"
  show ?thesis using TimerFired a by (auto intro!: area_clean_cong[OF _ a] simp: area_fire)
next
  case (Submit now)
  assume "area_clean s" then show ?thesis using Submit by (simp add: area_sendMessage)
next
  case (Input v)
  assume "area_clean s" then show ?thesis using Input by (simp add: area_clean_def)
next
  case (OpenChat c ty ti)
  then show ?thesis by (simp add: area_clean_def area_openChat)
next
  case (HistoryLoaded res)
  assume "area_clean s" then show ?thesis using HistoryLoaded
    by (cases res) (simp_all add: openChat_resume_def area_append_history)
next
  case LoadChats
  assume a: "area_clean s" show ?thesis using LoadChats by (simp add: area_clean_cong[OF _ a] area_fields)
next
  case (ChatsLoaded res)
  assume a: "area_clean s" show ?thesis using ChatsLoaded by (simp add: area_clean_cong[OF _ a] area_loadChats_resume)
next
  case (Toast m k)
  assume a: "area_clean s" show ?thesis using Toast by (simp add: area_clean_cong[OF _ a] area_fields)
qed

lemma area_init: "area_clean (init tok usr)"
proof -
  have "messages_area (init tok usr) = []"
    unfolding init_eq by (simp add: area_loadInitialData area_connectWebSocket) (simp add: blank_def)
  then show ?thesis by (simp add: area_clean_def)
qed

lemma area_run: "area_clean s \<Longrightarrow> area_clean (run s es)"
  unfolding run_def by (induction es arbitrary: s) (simp_all add: area_step)

subsection \<open>The state after a socket has opened, and the history response\<close>








section \<open>The example session, evaluated\<close>

lemma well_formed_tok: "well_formed (js ''tok'')"
  by (simp add: js_def)

lemma trim_example: "trim (js '' hi '') = js ''hi''"
  by (simp add: trim_def is_whitespace_def js_def)

lemma innerHTML_hi: "innerHTML_of_text (js ''hi'') = js ''hi''"
  by (simp add: innerHTML_of_text_def escape_unit_def js_def)


lemma example_client_eq:
  "example_client =
     \<lparr>token = Str (js ''tok''), user = Some ann, privateChats = [chat1],
      activeChat = Some \<lparr>ac_id = Str (js ''c1''), ac_type = Str (js ''private'')\<rparr>,
      socket = Some 0,
      sockets = [\<lparr>ws_token = js ''tok'', readyState = OPEN, has_onclose = True\<rparr>],
      timers = [],
      chat_list = [\<lparr>item_active = True, item_name = js ''bob''\<rparr>],
      chat_title = js ''bob'', messages_area = [], message_input = js '' hi '', toasts = [],
      trace = [NewWebSocket 0 (js ''tok''),
               Fetch (apiCall_request (Str (js ''tok'')) (js ''/api/chats/private'')
                        (js ''GET'') None False),
               Send 0 (Frame (js ''join_private_chat'') (Str (js ''c1'')) (Str (js ''c1'')) None),
               Fetch (apiCall_request (Str (js ''tok'')) (js ''/api/chats/private/c1'')
                        (js ''GET'') None False)]\<rparr>"
  unfolding example_client_def example_events_def
  by (simp add: run_def init_def blank_def connectWebSocket_def loadInitialData_def
      loadChats_def loadChats_resume_def renderChatList_def openChat_def openChat_resume_def
      socket_onopen_def ws_send_def update_socket_def ready_def open_socket_def
      join_frame_def history_endpoint_def Let_def ann_def chat1_def well_formed_tok
      js_eq_iff js_Nil_iff js_append[symmetric])

lemma example_client_fields:
  "token example_client = Str (js ''tok'')"
  "user example_client = Some ann"
  "activeChat example_client = Some \<lparr>ac_id = Str (js ''c1''), ac_type = Str (js ''private'')\<rparr>"
  "socket example_client = Some 0"
  "sockets example_client = [\<lparr>ws_token = js ''tok'', readyState = OPEN, has_onclose = True\<rparr>]"
  "privateChats example_client = [chat1]"
  "messages_area example_client = []"
  "message_input example_client = js '' hi ''"
  "timers example_client = []"
  by (simp_all add: example_client_eq)

lemma example_open_socket: "open_socket example_client = Some 0"
  by (simp add: open_socket_def ready_def example_client_fields)

section \<open>Properties of the client\<close>

text \<open>
  C1 (as the claim states it, refuted). In the example session Ann sends \<open>hi\<close> on the
  open socket, the server acknowledges with \<open>message_sent\<close>, and then the broadcast of
  her own message arrives for the active chat: the message area holds the message
  twice, the optimistic echo and the broadcast.
\<close>

theorem own_broadcast_rendered_twice:
  "messages_area
     (run example_client
        [Submit (js ''10:00:00''), SocketMessage 0 (Some example_ack),
         SocketMessage 0 (Some example_broadcast)]) =
     [\<lparr>sent = True, bubble_html = js ''hi'', meta_time = Str (js ''10:00:00'')\<rparr>,
      \<lparr>sent = True, bubble_html = js ''hi'', meta_time = Str (js ''10:00:01'')\<rparr>]"
  by (simp add: run_def example_client_eq sendMessage_def trim_example open_socket_def
      ready_def Let_def appendMessage_def ws_send_def socket_onmessage_def handleWsMessage_def
      example_ack_def example_broadcast_def ann_def js_eq_iff js_Nil_iff innerHTML_hi)

text \<open>
  C1 (amended). A send on the open socket, with a user and an active chat, renders the
  trimmed content once as a sent message, sends one frame that carries the type, the
  chat id and the content (no local reference), and clears the input. The
  \<open>message_sent\<close> acknowledgment changes nothing in the client. Every broadcast
  \<open>message\<close> for the active chat appends one more entry to the message area,
  whoever its sender is and whatever the area already holds; it is marked as sent
  when its sender is the user.
\<close>

theorem send_then_broadcast_rendering:
  "(activeChat s = Some ac \<and> trim (message_input s) \<noteq> [] \<and> open_socket s = Some i \<and>
    user s = Some u \<longrightarrow>
      sendMessage now s =
        (Normal,
         s\<lparr>messages_area := messages_area s @
              [\<lparr>sent = True, bubble_html = escapeHtml (Str (trim (message_input s))),
                meta_time = Str now\<rparr>],
           trace := trace s @ [Send i (message_frame ac (trim (message_input s)))],
           message_input := []\<rparr>)) \<and>
   (data_type d = Str (js ''message_sent'') \<longrightarrow> handleWsMessage d s = (Normal, s)) \<and>
   (data_type d = Str (js ''message'') \<and> activeChat s = Some ac \<and>
    (chat_type d = Str (js ''private'') \<and> chat_id d = ac_id ac \<or>
     chat_type d = Str (js ''group'') \<and> group_id d = ac_id ac) \<and>
    data_message d = Msg m \<and> user s = Some u \<longrightarrow>
      handleWsMessage d s =
        (Normal,
         s\<lparr>messages_area := messages_area s @
              [\<lparr>sent = (sender_id m = user_id u), bubble_html = escapeHtml (content m),
                meta_time = timestamp m\<rparr>]\<rparr>))"
proof (intro conjI impI)
  assume "activeChat s = Some ac \<and> trim (message_input s) \<noteq> [] \<and> open_socket s = Some i \<and>
    user s = Some u"
  then show "sendMessage now s =
        (Normal,
         s\<lparr>messages_area := messages_area s @
              [\<lparr>sent = True, bubble_html = escapeHtml (Str (trim (message_input s))),
                meta_time = Str now\<rparr>],
           trace := trace s @ [Send i (message_frame ac (trim (message_input s)))],
           message_input := []\<rparr>)"
    using sendMessage_sent[of s ac i u now] by simp
next
  assume "data_type d = Str (js ''message_sent'')"
  then show "handleWsMessage d s = (Normal, s)"
    by (simp add: handleWsMessage_def js_eq_iff)
next
  assume "data_type d = Str (js ''message'') \<and> activeChat s = Some ac \<and>
    (chat_type d = Str (js ''private'') \<and> chat_id d = ac_id ac \<or>
     chat_type d = Str (js ''group'') \<and> group_id d = ac_id ac) \<and>
    data_message d = Msg m \<and> user s = Some u"
  then show "handleWsMessage d s =
        (Normal,
         s\<lparr>messages_area := messages_area s @
              [\<lparr>sent = (sender_id m = user_id u), bubble_html = escapeHtml (content m),
                meta_time = timestamp m\<rparr>]\<rparr>)"
    by (auto simp: handleWsMessage_def Let_def appendMessage_def)
qed

theorem send_then_broadcast_rendering_witness:
  "sendMessage (js ''10:00:00'') example_client =
     (Normal,
      example_client
        \<lparr>messages_area :=
           [\<lparr>sent = True, bubble_html = js ''hi'', meta_time = Str (js ''10:00:00'')\<rparr>],
         trace := trace example_client @
           [Send 0 (Frame (js ''private_message'') (Str (js ''c1'')) (Str (js ''c1''))
                      (Some (js ''hi'')))],
         message_input := []\<rparr>) \<and>
   handleWsMessage example_ack example_client = (Normal, example_client) \<and>
   handleWsMessage example_broadcast example_client =
     (Normal,
      example_client
        \<lparr>messages_area :=
           [\<lparr>sent = True, bubble_html = js ''hi'', meta_time = Str (js ''10:00:01'')\<rparr>]\<rparr>)"
proof -
  have h1: "activeChat example_client =
              Some \<lparr>ac_id = Str (js ''c1''), ac_type = Str (js ''private'')\<rparr> \<and>
            trim (message_input example_client) \<noteq> [] \<and>
            open_socket example_client = Some 0 \<and> user example_client = Some ann"
    by (simp add: example_client_fields example_open_socket trim_example js_Nil_iff)
  have h2: "data_type example_ack = Str (js ''message_sent'')"
    by (simp add: example_ack_def)
  have h3: "data_type example_broadcast = Str (js ''message'') \<and>
            activeChat example_client =
              Some \<lparr>ac_id = Str (js ''c1''), ac_type = Str (js ''private'')\<rparr> \<and>
            (chat_type example_broadcast = Str (js ''private'') \<and>
             chat_id example_broadcast =
               ac_id \<lparr>ac_id = Str (js ''c1''), ac_type = Str (js ''private'')\<rparr> \<or>
             chat_type example_broadcast = Str (js ''group'') \<and>
             group_id example_broadcast =
               ac_id \<lparr>ac_id = Str (js ''c1''), ac_type = Str (js ''private'')\<rparr>) \<and>
            data_message example_broadcast =
              Msg \<lparr>content = Str (js ''hi''), timestamp = Str (js ''10:00:01''),
                   sender_id = Str (js ''u1''), sender_name = Str (js ''ann'')\<rparr> \<and>
            user example_client = Some ann"
    by (simp add: example_broadcast_def example_client_fields)
  note t = send_then_broadcast_rendering
    [of example_client "\<lparr>ac_id = Str (js ''c1''), ac_type = Str (js ''private'')\<rparr>" 0 ann
       "js ''10:00:00''" example_ack]
  have a: "sendMessage (js ''10:00:00'') example_client =
     (Normal,
      example_client
        \<lparr>messages_area := messages_area example_client @
           [\<lparr>sent = True, bubble_html = escapeHtml (Str (trim (message_input example_client))),
             meta_time = Str (js ''10:00:00'')\<rparr>],
         trace := trace example_client @
           [Send 0 (message_frame \<lparr>ac_id = Str (js ''c1''), ac_type = Str (js ''private'')\<rparr>
                     (trim (message_input example_client)))],
         message_input := []\<rparr>)"
    using t h1 by blast
  have b: "handleWsMessage example_ack example_client = (Normal, example_client)"
    using t h2 by blast
  have c: "handleWsMessage example_broadcast example_client =
     (Normal,
      example_client
        \<lparr>messages_area := messages_area example_client @
           [\<lparr>sent = (sender_id \<lparr>content = Str (js ''hi''), timestamp = Str (js ''10:00:01''),
                   sender_id = Str (js ''u1''), sender_name = Str (js ''ann'')\<rparr> = user_id ann),
             bubble_html = escapeHtml (content \<lparr>content = Str (js ''hi''), timestamp = Str (js ''10:00:01''),
                   sender_id = Str (js ''u1''), sender_name = Str (js ''ann'')\<rparr>),
             meta_time = timestamp \<lparr>content = Str (js ''hi''), timestamp = Str (js ''10:00:01''),
                   sender_id = Str (js ''u1''), sender_name = Str (js ''ann'')\<rparr>\<rparr>]\<rparr>)"
    using send_then_broadcast_rendering
      [of example_client "\<lparr>ac_id = Str (js ''c1''), ac_type = Str (js ''private'')\<rparr>" 0 ann
         "js ''10:00:00''" example_broadcast
         "\<lparr>content = Str (js ''hi''), timestamp = Str (js ''10:00:01''),
           sender_id = Str (js ''u1''), sender_name = Str (js ''ann'')\<rparr>"] h3
    by blast
  show ?thesis
    using a b c
    by (simp add: example_client_fields trim_example message_frame_def innerHTML_hi ann_def
        js_eq_iff js_Nil_iff)
qed

lemma quiet_handleLogout: "quiet s (handleLogout s)"
proof -
  have q0: "quiet s (s\<lparr>token := Null, user := None\<rparr>)" by (rule quiet_refl) simp
  have q1: "quiet (s\<lparr>token := Null, user := None\<rparr>) (detach (s\<lparr>token := Null, user := None\<rparr>))"
    by (rule detach_quiet)
  have q2: "quiet (detach (s\<lparr>token := Null, user := None\<rparr>))
              ((detach (s\<lparr>token := Null, user := None\<rparr>))\<lparr>socket := None\<rparr>)"
    by (rule quiet_refl) simp
  show ?thesis
    unfolding handleLogout_eq using quiet_trans[OF quiet_trans[OF q0 q1] q2] .
qed

text \<open>
  C5. In every state \<open>s\<close> that the event loop reaches from the loaded page:
  \<open>handleLogout\<close> sets token, user and socket to \<open>null\<close>; from then on, whatever
  happens (sockets opening, closing or receiving, timers firing, also reconnect timers
  scheduled before the logout, user actions) short of a new login, the client creates
  no WebSocket and schedules no \<open>connectWebSocket\<close> timer, the logout included. When
  instead the current socket, connecting or open, closes while a token is set, the
  client schedules exactly one timer, for \<open>connectWebSocket\<close> after 3000 ms.
\<close>

theorem logout_cancels_reconnect:
  assumes "s = run (init tok usr) es"
  shows "token (handleLogout s) = Null \<and> user (handleLogout s) = None \<and>
         socket (handleLogout s) = None \<and>
         (list_all (\<lambda>e. \<not> is_login e) es' \<longrightarrow>
            quiet s (run (handleLogout s) es') \<and>
            length (sockets (run (handleLogout s) es')) = length (sockets s)) \<and>
         (socket s = Some i \<and> (ready s i = Some CONNECTING \<or> ready s i = Some OPEN) \<and>
          truthy (token s) \<longrightarrow>
            trace (step s (SocketClosed i)) = trace s @ [SetTimeout ConnectWebSocket 3000] \<and>
            timers (step s (SocketClosed i)) = timers s @ [(ConnectWebSocket, 3000)])"
proof -
  have inv: "conn_inv s" unfolding assms by (rule conn_inv_reachable)
  have lo: "logged_out (handleLogout s)" using inv by (rule logged_out_handleLogout)
  have a: "quiet s (run (handleLogout s) es') \<and>
           length (sockets (run (handleLogout s) es')) = length (sockets s)"
    if "list_all (\<lambda>e. \<not> is_login e) es'"
    using logged_out_run[OF lo that] quiet_trans[OF quiet_handleLogout]
    by (simp add: handleLogout_fields)
  have b: "trace (step s (SocketClosed i)) = trace s @ [SetTimeout ConnectWebSocket 3000] \<and>
           timers (step s (SocketClosed i)) = timers s @ [(ConnectWebSocket, 3000)]"
    if "socket s = Some i \<and> (ready s i = Some CONNECTING \<or> ready s i = Some OPEN) \<and>
        truthy (token s)"
    using close_schedules(1,2)[OF inv, of i] that by blast
  show ?thesis using a b by (simp add: handleLogout_fields)
qed

theorem logout_cancels_reconnect_witness:
  "socket (handleLogout example_client) = None \<and>
   quiet example_client
     (run (handleLogout example_client) [SocketClosed 0, TimerFired 0, SocketOpened 0]) \<and>
   trace (step example_client (SocketClosed 0)) =
     trace example_client @ [SetTimeout ConnectWebSocket 3000]"
proof -
  have h0: "example_client = run (init (Str (js ''tok'')) (Some ann)) example_events"
    by (rule example_client_def)
  have h1: "list_all (\<lambda>e. \<not> is_login e) [SocketClosed 0, TimerFired 0, SocketOpened 0]"
    by simp
  have h2: "socket example_client = Some 0 \<and>
            (ready example_client 0 = Some CONNECTING \<or> ready example_client 0 = Some OPEN) \<and>
            truthy (token example_client)"
    by (simp add: example_client_fields ready_def js_Nil_iff)
  show ?thesis
    using logout_cancels_reconnect
      [OF h0, of "[SocketClosed 0, TimerFired 0, SocketOpened 0]" 0] h1 h2
    by blast
qed






text \<open>
  C8. \<open>escapeHtml\<close> returns a string without \<open><\<close> and \<open>>\<close>, whatever it is given; it
  returns the empty string for \<open>null\<close>, \<open>undefined\<close> and the empty string; it works code
  unit by code unit, replacing \<open><\<close>, \<open>>\<close> and \<open>&\<close> by \<open>&lt;\<close>, \<open>&gt;\<close> and \<open>&amp;\<close>.
  \<open>appendMessage\<close> appends one entry whose bubble is \<open>escapeHtml\<close> of the content, and in
  every state that the event loop reaches from the loaded page no bubble of the message
  area holds a \<open><\<close> or a \<open>>\<close>.
\<close>

theorem escapeHtml_blocks_markup:
  "0x3C \<notin> set (escapeHtml v) \<and> 0x3E \<notin> set (escapeHtml v) \<and>
   escapeHtml Null = [] \<and> escapeHtml Undefined = [] \<and> escapeHtml (Str []) = [] \<and>
   escapeHtml (Str (a @ b)) = escapeHtml (Str a) @ escapeHtml (Str b) \<and>
   escapeHtml (Str [0x3C]) = js ''&lt;'' \<and> escapeHtml (Str [0x3E]) = js ''&gt;'' \<and>
   escapeHtml (Str [0x26]) = js ''&amp;'' \<and>
   messages_area (appendMessage msg isMe s) =
     messages_area s @
       [\<lparr>sent = isMe, bubble_html = escapeHtml (content msg), meta_time = timestamp msg\<rparr>] \<and>
   area_clean (run (init tok usr) es)"
proof -
  have 1: "0x3C \<notin> set (escapeHtml v) \<and> 0x3E \<notin> set (escapeHtml v)"
    by (rule escapeHtml_clean)
  have 2: "escapeHtml (Str (a @ b)) = escapeHtml (Str a) @ escapeHtml (Str b)"
    unfolding escapeHtml_Str by (rule innerHTML_append)
  have 3: "escapeHtml (Str [0x3C]) = js ''&lt;'' \<and> escapeHtml (Str [0x3E]) = js ''&gt;'' \<and>
           escapeHtml (Str [0x26]) = js ''&amp;''"
    by (simp add: innerHTML_of_text_def escape_unit_def)
  have 4: "area_clean (run (init tok usr) es)"
    by (rule area_run) (rule area_init)
  show ?thesis using 1 2 3 4 by (simp add: appendMessage_def)
qed

theorem escapeHtml_blocks_markup_witness:
  "escapeHtml (Str (js ''<b>Tom & Jerry</b>'')) = js ''&lt;b&gt;Tom &amp; Jerry&lt;/b&gt;'' \<and>
   0x3C \<notin> set (js ''&lt;b&gt;Tom &amp; Jerry&lt;/b&gt;'') \<and>
   0x3E \<notin> set (js ''&lt;b&gt;Tom &amp; Jerry&lt;/b&gt;'')"
proof -
  have e: "escapeHtml (Str (js ''<b>Tom & Jerry</b>'')) = js ''&lt;b&gt;Tom &amp; Jerry&lt;/b&gt;''"
    by (simp add: innerHTML_of_text_def escape_unit_def js_def)
  have t: "0x3C \<notin> set (escapeHtml (Str (js ''<b>Tom & Jerry</b>''))) \<and>
           0x3E \<notin> set (escapeHtml (Str (js ''<b>Tom & Jerry</b>'')))"
    using escapeHtml_blocks_markup [of "Str (js ''<b>Tom & Jerry</b>'')"] by blast
  show ?thesis using e t[unfolded e] by blast
qed

text \<open>
  C9 (as the claim states it, refuted). A response that is ok and whose body is not JSON:
  \<open>res.json()\<close> rejects and \<open>apiCall\<close> throws, although the response is ok.
\<close>

theorem apiCall_throws_on_ok_response:
  "apiCall (Str (js ''tok'')) (\<lambda>r. Response True None) (js ''/api/users'') (js ''GET'')
     (None :: unit option) False = Inl SyntaxError"
  by (simp add: apiCall_def)

text \<open>
  C9 (amended). When \<open>fetch\<close> resolves with a response whose body parses as JSON,
  \<open>apiCall\<close> returns the parsed body if the response is ok; if it is not ok and the
  body is not \<open>null\<close>, it throws an Error made from the body's \<open>detail\<close> if that is
  truthy, else from its \<open>message\<close> if that is truthy, else from \<open>API Error\<close> (for the body
  \<open>null\<close> the property read throws a TypeError). When the body does not parse, or
  \<open>fetch\<close> rejects, \<open>apiCall\<close> throws whatever the status is; so it throws exactly when
  \<open>fetch\<close> did not resolve with an ok response with a JSON body. The request carries the
  header \<open>Authorization: Bearer <token>\<close> if and only if \<open>state.token\<close> is truthy (a
  string that is not empty).
\<close>

theorem apiCall_outcomes:
  "(fetch (apiCall_request tok endpoint method body isFormData) = Response True (Some data) \<longrightarrow>
      apiCall tok fetch endpoint method body isFormData = Inr data) \<and>
   (fetch (apiCall_request tok endpoint method body isFormData) = Response False (Some data) \<and>
    data \<noteq> JNull \<longrightarrow>
      apiCall tok fetch endpoint method body isFormData =
        Inl (Error (or_else (get_prop data (js ''detail''))
                      (or_else (get_prop data (js ''message'')) (JStr (js ''API Error'')))))) \<and>
   (fetch (apiCall_request tok endpoint method body isFormData) = Response False (Some JNull) \<longrightarrow>
      apiCall tok fetch endpoint method body isFormData = Inl TypeError) \<and>
   (fetch (apiCall_request tok endpoint method body isFormData) = Response ok None \<longrightarrow>
      apiCall tok fetch endpoint method body isFormData = Inl SyntaxError) \<and>
   (fetch (apiCall_request tok endpoint method body isFormData) = Rejected \<longrightarrow>
      apiCall tok fetch endpoint method body isFormData = Inl FetchRejected) \<and>
   (isl (apiCall tok fetch endpoint method body isFormData) \<longleftrightarrow>
      (\<forall>d. fetch (apiCall_request tok endpoint method body isFormData) \<noteq>
             Response True (Some d))) \<and>
   ((js ''Authorization'', v) \<in> set (headers (apiCall_request tok endpoint method body isFormData))
      \<longleftrightarrow> truthy tok \<and> v = js ''Bearer '' @ to_string tok) \<and>
   or_else None x = x \<and>
   or_else (Some y) x = (if json_truthy y then y else x)"
proof -
  have h: "(js ''Authorization'', v) \<in> set (headers (apiCall_request tok endpoint method body isFormData))
      \<longleftrightarrow> truthy tok \<and> v = js ''Bearer '' @ to_string tok"
    by (cases body) (auto simp: apiCall_request_def js_eq_iff)
  have t: "isl (apiCall tok fetch endpoint method body isFormData) \<longleftrightarrow>
      (\<forall>d. fetch (apiCall_request tok endpoint method body isFormData) \<noteq> Response True (Some d))"
    by (cases "fetch (apiCall_request tok endpoint method body isFormData)")
       (auto simp: apiCall_def split: option.splits)
  show ?thesis using h t by (simp add: apiCall_def or_else_def)
qed

theorem apiCall_outcomes_witness:
  "apiCall (Str (js ''tok''))
     (\<lambda>r. Response False (Some (JObj [(js ''detail'', JStr (js ''Invalid credentials''))])))
     (js ''/api/auth/login'') (js ''POST'') (Some ()) False =
     Inl (Error (JStr (js ''Invalid credentials''))) \<and>
   apiCall Null (\<lambda>r. Response True (Some (JObj [(js ''users'', JArr [])])))
     (js ''/api/users'') (js ''GET'') (None :: unit option) False =
     Inr (JObj [(js ''users'', JArr [])])"
proof -
  have a: "(\<lambda>r :: unit request. Response False (Some (JObj [(js ''detail'', JStr (js ''Invalid credentials''))])))
             (apiCall_request (Str (js ''tok'')) (js ''/api/auth/login'') (js ''POST'') (Some ()) False) =
           Response False (Some (JObj [(js ''detail'', JStr (js ''Invalid credentials''))])) \<and>
           JObj [(js ''detail'', JStr (js ''Invalid credentials''))] \<noteq> JNull"
    by simp
  have b: "(\<lambda>r :: unit request. Response True (Some (JObj [(js ''users'', JArr [])])))
             (apiCall_request Null (js ''/api/users'') (js ''GET'') None False) =
           Response True (Some (JObj [(js ''users'', JArr [])]))"
    by simp
  have 1: "apiCall (Str (js ''tok''))
     (\<lambda>r. Response False (Some (JObj [(js ''detail'', JStr (js ''Invalid credentials''))])))
     (js ''/api/auth/login'') (js ''POST'') (Some ()) False =
     Inl (Error (or_else (get_prop (JObj [(js ''detail'', JStr (js ''Invalid credentials''))]) (js ''detail''))
                   (or_else (get_prop (JObj [(js ''detail'', JStr (js ''Invalid credentials''))]) (js ''message''))
                      (JStr (js ''API Error'')))))"
    using apiCall_outcomes
      [of "\<lambda>r. Response False (Some (JObj [(js ''detail'', JStr (js ''Invalid credentials''))]))"
          "Str (js ''tok'')" "js ''/api/auth/login''" "js ''POST''" "Some ()" False
          "JObj [(js ''detail'', JStr (js ''Invalid credentials''))]"] a
    by blast
  have 2: "apiCall Null (\<lambda>r. Response True (Some (JObj [(js ''users'', JArr [])])))
     (js ''/api/users'') (js ''GET'') (None :: unit option) False =
     Inr (JObj [(js ''users'', JArr [])])"
    using apiCall_outcomes
      [of "\<lambda>r. Response True (Some (JObj [(js ''users'', JArr [])]))"
          Null "js ''/api/users''" "js ''GET''" "None :: unit option" False
          "JObj [(js ''users'', JArr [])]"] b
    by blast
  show ?thesis using 1 2 by (simp add: or_else_def js_eq_iff js_Nil_iff)
qed

text \<open>
  C10. When no chat is active, or the input trims to the empty string, \<open>sendMessage\<close>
  returns with the client unchanged: nothing is sent, nothing is appended. When a chat
  is active and the content is not empty but the socket is absent or not open,
  \<open>sendMessage\<close> only shows the error toast \<open>Connection lost\<close>: the message area, the
  input and the sockets are unchanged, and the only effect logged is the timer that
  removes the toast.
\<close>

theorem sendMessage_guards:
  "(activeChat s = None \<or> trim (message_input s) = [] \<longrightarrow> sendMessage now s = (Normal, s)) \<and>
   (activeChat s \<noteq> None \<and> trim (message_input s) \<noteq> [] \<and> open_socket s = None \<longrightarrow>
      sendMessage now s = (Normal, showToast (js ''Connection lost'') (js ''error'') s) \<and>
      messages_area (snd (sendMessage now s)) = messages_area s \<and>
      message_input (snd (sendMessage now s)) = message_input s \<and>
      sockets (snd (sendMessage now s)) = sockets s \<and>
      toasts (snd (sendMessage now s)) =
        toasts s @ [\<lparr>toast_text = js ''Connection lost'', toast_kind = js ''error''\<rparr>] \<and>
      trace (snd (sendMessage now s)) =
        trace s @
          [SetTimeout (RemoveToast \<lparr>toast_text = js ''Connection lost'', toast_kind = js ''error''\<rparr>)
             3000]) \<and>
   (open_socket s = None \<longleftrightarrow>
      socket s = None \<or> (\<exists>i. socket s = Some i \<and> ready s i \<noteq> Some OPEN))"
proof (intro conjI impI)
  assume "activeChat s = None \<or> trim (message_input s) = []"
  then show "sendMessage now s = (Normal, s)"
    by (auto simp: sendMessage_def Let_def split: option.splits)
next
  assume a: "activeChat s \<noteq> None \<and> trim (message_input s) \<noteq> [] \<and> open_socket s = None"
  then show e: "sendMessage now s = (Normal, showToast (js ''Connection lost'') (js ''error'') s)"
    by (auto simp: sendMessage_def Let_def)
  show "messages_area (snd (sendMessage now s)) = messages_area s"
    "message_input (snd (sendMessage now s)) = message_input s"
    "sockets (snd (sendMessage now s)) = sockets s"
    "toasts (snd (sendMessage now s)) =
        toasts s @ [\<lparr>toast_text = js ''Connection lost'', toast_kind = js ''error''\<rparr>]"
    "trace (snd (sendMessage now s)) =
        trace s @
          [SetTimeout (RemoveToast \<lparr>toast_text = js ''Connection lost'', toast_kind = js ''error''\<rparr>)
             3000]"
    unfolding e by (simp_all add: showToast_def Let_def)
next
  show "open_socket s = None \<longleftrightarrow>
      socket s = None \<or> (\<exists>i. socket s = Some i \<and> ready s i \<noteq> Some OPEN)"
    by (cases "socket s") (simp_all add: open_socket_def)
qed

lemma example_offline:
  "step example_client (SocketClosed 0) =
     example_client
       \<lparr>sockets := [\<lparr>ws_token = js ''tok'', readyState = CLOSED, has_onclose = True\<rparr>],
        timers := [(ConnectWebSocket, 3000)],
        trace := trace example_client @ [SetTimeout ConnectWebSocket 3000]\<rparr>"
  by (simp add: example_client_eq socket_onclose_def update_socket_def Let_def js_Nil_iff)

theorem sendMessage_guards_witness:
  "sendMessage (js ''10:00:00'') (blank Null None) = (Normal, blank Null None) \<and>
   sendMessage (js ''10:00:00'') (step example_client (SocketClosed 0)) =
     (Normal,
      showToast (js ''Connection lost'') (js ''error'') (step example_client (SocketClosed 0))) \<and>
   messages_area (snd (sendMessage (js ''10:00:00'') (step example_client (SocketClosed 0)))) = []"
proof -
  have h1: "activeChat (blank Null None) = None \<or> trim (message_input (blank Null None)) = []"
    by (simp add: blank_def)
  have h2: "activeChat (step example_client (SocketClosed 0)) \<noteq> None \<and>
            trim (message_input (step example_client (SocketClosed 0))) \<noteq> [] \<and>
            open_socket (step example_client (SocketClosed 0)) = None"
    unfolding example_offline
    by (simp add: example_client_fields trim_example js_Nil_iff open_socket_def ready_def)
  have m: "messages_area (step example_client (SocketClosed 0)) = []"
    unfolding example_offline by (simp add: example_client_fields)
  have 1: "sendMessage (js ''10:00:00'') (blank Null None) = (Normal, blank Null None)"
    using sendMessage_guards [of "blank Null None" "js ''10:00:00''"] h1 by blast
  have 2: "sendMessage (js ''10:00:00'') (step example_client (SocketClosed 0)) =
     (Normal,
      showToast (js ''Connection lost'') (js ''error'') (step example_client (SocketClosed 0))) \<and>
     messages_area (snd (sendMessage (js ''10:00:00'') (step example_client (SocketClosed 0)))) =
       messages_area (step example_client (SocketClosed 0))"
    using sendMessage_guards [of "step example_client (SocketClosed 0)" "js ''10:00:00''"] h2
    by blast
  show ?thesis using 1 2[unfolded m] by blast
qed

end
